theory Spec2Isabelle
  imports Complex_Main
begin

section \<open>Common vocabulary\<close>

text \<open>
  C++ \<^verbatim>\<open>double\<close> values are modelled by \<^typ>\<open>real\<close>, \<^verbatim>\<open>int\<close> values by \<^typ>\<open>int\<close>,
  sizes and cell indices by \<^typ>\<open>nat\<close>.  Every \<^verbatim>\<open>OPM_THROW\<close> of the source is a value of
  \<open>error\<close>; an access outside a vector or array, or the dereference of the \<^verbatim>\<open>begin()\<close>
  of an empty range, has no defined behaviour in C++ and is the value
  \<open>UndefinedBehaviour\<close>.  \<open>DeckError\<close> is an exception of the deck parser (a record or an
  item that is not there).
\<close>

datatype error =
    DomainError string
  | RuntimeError string
  | DeckError
  | UndefinedBehaviour

text \<open>Sequencing of a computation that may throw.\<close>

definition ebind :: "error + 'a \<Rightarrow> ('a \<Rightarrow> error + 'b) \<Rightarrow> error + 'b" where
  "ebind m f = (case m of Inl e \<Rightarrow> Inl e | Inr x \<Rightarrow> f x)"

text \<open>\<^verbatim>\<open>v[i]\<close> for a signed index \<^verbatim>\<open>i\<close>.\<close>

definition vec_at :: "'a list \<Rightarrow> int \<Rightarrow> error + 'a" where
  "vec_at xs i = (if 0 \<le> i \<and> i < int (length xs) then Inr (xs ! nat i) else Inl UndefinedBehaviour)"

text \<open>\<^verbatim>\<open>v[i] = x\<close> for a signed index \<^verbatim>\<open>i\<close>.\<close>

definition vec_set :: "'a list \<Rightarrow> int \<Rightarrow> 'a \<Rightarrow> error + 'a list" where
  "vec_set xs i x = (if 0 \<le> i \<and> i < int (length xs) then Inr (xs[nat i := x]) else Inl UndefinedBehaviour)"

subsection \<open>Phases (BlackoilPhases.hpp)\<close>

datatype Phase = Aqua | Liquid | Vapour

record PhaseUsage =
  num_phases :: int
  phase_used :: "Phase \<Rightarrow> bool"
  phase_pos :: "Phase \<Rightarrow> int"

subsection \<open>The deck\<close>

text \<open>
  A deck keyword is a list of records; a record gives, for an item name, the item's values
  in SI units.  \<open>EquilWrapper\<close> is the view that \<^verbatim>\<open>Opm::EquilWrapper\<close> gives of keyword
  EQUIL: one row per equilibration region.
\<close>

type_synonym DeckRecord = "(string \<times> real list) list"

record EquilWrapperRow =
  datumDepth :: real
  datumDepthPressure :: real
  waterOilContactDepth :: real
  waterOilContactCapillaryPressure :: real
  gasOilContactDepth :: real
  gasOilContactCapillaryPressure :: real
  liveOilInitProceedure :: int
  wetGasInitProceedure :: int
  initializationTargetAccuracy :: int

record Deck =
  keyword_list :: "(string \<times> DeckRecord list) list"
  EQUIL :: "EquilWrapperRow list"

definition hasKeyword :: "Deck \<Rightarrow> string \<Rightarrow> bool" where
  "hasKeyword deck k = (map_of (keyword_list deck) k \<noteq> None)"

definition getRecord :: "Deck \<Rightarrow> string \<Rightarrow> nat \<Rightarrow> error + DeckRecord" where
  "getRecord deck k r =
     (case map_of (keyword_list deck) k of
        None \<Rightarrow> Inl DeckError
      | Some recs \<Rightarrow> if r < length recs then Inr (recs ! r) else Inl DeckError)"

definition getSIDouble :: "DeckRecord \<Rightarrow> string \<Rightarrow> nat \<Rightarrow> error + real" where
  "getSIDouble rcd item k =
     (case map_of rcd item of
        None \<Rightarrow> Inl DeckError
      | Some vs \<Rightarrow> if k < length vs then Inr (vs ! k) else Inl DeckError)"

section \<open>PvtPropertiesIncompFromDeck\<close>

text \<open>
  The three member arrays (named without the trailing underscore of the source) have two
  slots each.  \<open>init\<close> assigns members one after the
  other and may throw in between, so it returns the exception (if any) together with the
  object as it is at that moment.  \<open>phaseUsageFromDeck\<close> is declared in a header that is
  not part of the sources at hand, and is a parameter.  \<^verbatim>\<open>OPM_MESSAGE\<close> only prints.
\<close>

record PvtPropertiesIncompFromDeck =
  surface_density :: "real list"
  reservoir_density :: "real list"
  viscosity :: "real list"

definition init_msg :: string where
  "init_msg = ''PvtPropertiesIncompFromDeck::init() -- must have gas and oil phases (only) in deck input.'' @ [CHR 0x0A]"

text \<open>
  \<open>attempt m this k\<close>: evaluate \<open>m\<close>; if it throws, the exception leaves the method with
  the object as it is, otherwise continue with the value.  \<open>and_then\<close> runs the next
  statement on the object unless the previous one has thrown.
\<close>

definition attempt :: "error + 'a \<Rightarrow> 's \<Rightarrow> ('a \<Rightarrow> error option \<times> 's) \<Rightarrow> error option \<times> 's" where
  "attempt m this k = (case m of Inl e \<Rightarrow> (Some e, this) | Inr x \<Rightarrow> k x)"

definition and_then :: "error option \<times> 's \<Rightarrow> ('s \<Rightarrow> error option \<times> 's) \<Rightarrow> error option \<times> 's" where
  "and_then r k = (case r of (Some e, this) \<Rightarrow> (Some e, this) | (None, this) \<Rightarrow> k this)"

definition init_density ::
  "PhaseUsage \<Rightarrow> Deck \<Rightarrow> PvtPropertiesIncompFromDeck \<Rightarrow> error option \<times> PvtPropertiesIncompFromDeck" where
  "init_density phase_usage deck this =
     (if hasKeyword deck ''DENSITY'' then
        attempt (getRecord deck ''DENSITY'' 0) this (\<lambda>densityRecord.
        attempt (getSIDouble densityRecord ''OIL'' 0) this (\<lambda>oil.
        attempt (vec_set (surface_density this) (phase_pos phase_usage Aqua) oil) this (\<lambda>sd1.
        attempt (getSIDouble densityRecord ''WATER'' 0) (this\<lparr>surface_density := sd1\<rparr>) (\<lambda>water.
        attempt (vec_set sd1 (phase_pos phase_usage Liquid) water) (this\<lparr>surface_density := sd1\<rparr>) (\<lambda>sd2.
        (None, this\<lparr>surface_density := sd2\<rparr>))))))
      else (Some (RuntimeError (''Input is missing DENSITY'' @ [CHR 0x0A])), this))"

definition init_pvtw ::
  "PhaseUsage \<Rightarrow> Deck \<Rightarrow> PvtPropertiesIncompFromDeck \<Rightarrow> error option \<times> PvtPropertiesIncompFromDeck" where
  "init_pvtw phase_usage deck this =
     (if hasKeyword deck ''PVTW'' then
        attempt (getRecord deck ''PVTW'' 0) this (\<lambda>pvtwRecord.
        attempt (getSIDouble pvtwRecord ''WATER_COMPRESSIBILITY'' 0) this (\<lambda>c.
        attempt (if c \<noteq> 0 then Inr c else getSIDouble pvtwRecord ''WATER_VISCOSIBILITY'' 0) this (\<lambda>_.
        attempt (getSIDouble pvtwRecord ''WATER_VOL_FACTOR'' 0) this (\<lambda>b.
        attempt (vec_at (reservoir_density this) (phase_pos phase_usage Aqua)) this (\<lambda>rho.
        attempt (vec_set (reservoir_density this) (phase_pos phase_usage Aqua) (rho / b)) this (\<lambda>rd.
        attempt (getSIDouble pvtwRecord ''WATER_VISCOSITY'' 0) (this\<lparr>reservoir_density := rd\<rparr>) (\<lambda>mu.
        attempt (vec_set (viscosity this) (phase_pos phase_usage Aqua) mu) (this\<lparr>reservoir_density := rd\<rparr>) (\<lambda>vs.
        (None, this\<lparr>reservoir_density := rd, viscosity := vs\<rparr>)))))))))
      else (Some (RuntimeError (''Input is missing PVTW'' @ [CHR 0x0A])), this))"

definition init_pvcdo ::
  "PhaseUsage \<Rightarrow> Deck \<Rightarrow> PvtPropertiesIncompFromDeck \<Rightarrow> error option \<times> PvtPropertiesIncompFromDeck" where
  "init_pvcdo phase_usage deck this =
     (if hasKeyword deck ''PVCDO'' then
        attempt (getRecord deck ''PVCDO'' 0) this (\<lambda>pvcdoRecord.
        attempt (getSIDouble pvcdoRecord ''OIL_COMPRESSIBILITY'' 0) this (\<lambda>c.
        attempt (if c \<noteq> 0 then Inr c else getSIDouble pvcdoRecord ''OIL_VISCOSIBILITY'' 0) this (\<lambda>_.
        attempt (getSIDouble pvcdoRecord ''OIL_VOL_FACTOR'' 0) this (\<lambda>b.
        attempt (vec_at (reservoir_density this) (phase_pos phase_usage Liquid)) this (\<lambda>rho.
        attempt (vec_set (reservoir_density this) (phase_pos phase_usage Liquid) (rho / b)) this (\<lambda>rd.
        attempt (getSIDouble pvcdoRecord ''OIL_VISCOSITY'' 0) (this\<lparr>reservoir_density := rd\<rparr>) (\<lambda>mu.
        attempt (vec_set (viscosity this) (phase_pos phase_usage Liquid) mu) (this\<lparr>reservoir_density := rd\<rparr>) (\<lambda>vs.
        (None, this\<lparr>reservoir_density := rd, viscosity := vs\<rparr>)))))))))
      else (Some (RuntimeError (''Input is missing PVCDO'' @ [CHR 0x0A])), this))"

definition init ::
  "(Deck \<Rightarrow> error + PhaseUsage) \<Rightarrow> Deck \<Rightarrow> PvtPropertiesIncompFromDeck
     \<Rightarrow> error option \<times> PvtPropertiesIncompFromDeck" where
  "init phaseUsageFromDeck deck this =
     attempt (phaseUsageFromDeck deck) this (\<lambda>phase_usage.
       if phase_used phase_usage Vapour \<or> \<not> phase_used phase_usage Aqua \<or> \<not> phase_used phase_usage Liquid
       then (Some (RuntimeError init_msg), this)
       else
         and_then (init_density phase_usage deck this) (\<lambda>this1.
         and_then (None, this1\<lparr>reservoir_density := surface_density this1\<rparr>) (\<lambda>this2.
         and_then (init_pvtw phase_usage deck this2) (\<lambda>this3.
         init_pvcdo phase_usage deck this3))))"

definition numPhases :: "PvtPropertiesIncompFromDeck \<Rightarrow> int" where
  "numPhases this = 2"

section \<open>Equilibration (initStateEquil.hpp)\<close>

subsection \<open>Data\<close>

text \<open>
  \<^verbatim>\<open>EquilRecord\<close> (EquilibrationHelpers.hpp), as the aggregate initialiser of
  \<open>getEquil\<close> fills it: three depth/pressure pairs, two table indices, the accuracy item.
\<close>

record DepthPress =
  depth :: real
  press :: real

record EquilRecord =
  main :: DepthPress
  woc :: DepthPress
  goc :: DepthPress
  live_oil_table_index :: int
  wet_gas_table_index :: int
  N :: int

record RsvdTable =
  rsvd_DepthColumn :: "real list"
  RsColumn :: "real list"

record RvvdTable =
  rvvd_DepthColumn :: "real list"
  RvColumn :: "real list"

text \<open>
  The part of \<^verbatim>\<open>EclipseState\<close> that is read: the RSVD and RVVD tables and the data of the
  grid properties EQLNUM and SWATINIT.
\<close>

record EclipseState =
  rsvdTables :: "RsvdTable list"
  rvvdTables :: "RvvdTable list"
  EQLNUM :: "int list"
  SWATINIT :: "real list"

text \<open>
  The grid: \<open>global_cell\<close> is \<open>None\<close> for the null pointer; \<open>cell_depth\<close> is the depth
  of a cell's centroid.
\<close>

record UnstructuredGrid =
  number_of_cells :: nat
  global_cell :: "int list option"
  cell_depth :: "nat \<Rightarrow> real"

record BlackoilPropertiesInterface =
  props_numPhases :: nat
  phaseUsage :: PhaseUsage

text \<open>
  The miscibility functions (classes of namespace \<^verbatim>\<open>Miscibility\<close>), with the constructor
  arguments that the computer passes: the representative cell, then the two table columns
  or the contact pressure and temperature.  The property object, passed to each of them by
  reference, is the same throughout and is left out.
\<close>

datatype RsFunction =
    NoMixing
  | RsVD nat "real list" "real list"
  | RsSatAtContact nat real real
  | RvVD nat "real list" "real list"
  | RvSatAtContact nat real real

subsection \<open>Iteration that may throw\<close>

fun mapE :: "('a \<Rightarrow> error + 'b) \<Rightarrow> 'a list \<Rightarrow> error + 'b list" where
  "mapE f [] = Inr []"
| "mapE f (x # xs) = ebind (f x) (\<lambda>y. ebind (mapE f xs) (\<lambda>ys. Inr (y # ys)))"

fun foldE :: "('a \<Rightarrow> 's \<Rightarrow> error + 's) \<Rightarrow> 'a list \<Rightarrow> 's \<Rightarrow> error + 's" where
  "foldE f [] s = Inr s"
| "foldE f (x # xs) s = ebind (f x s) (foldE f xs)"

text \<open>What \<^verbatim>\<open><<\<close> prints for a non-negative integer.\<close>

fun decimal :: "nat \<Rightarrow> string" where
  "decimal n = (if n < 10 then [char_of (48 + n)] else decimal (n div 10) @ [char_of (48 + n mod 10)])"

declare decimal.simps [simp del]

subsection \<open>getEquil\<close>

definition record_of :: "EquilWrapperRow \<Rightarrow> EquilRecord" where
  "record_of row =
     \<lparr> main = \<lparr>depth = datumDepth row, press = datumDepthPressure row\<rparr>,
       woc = \<lparr>depth = waterOilContactDepth row, press = waterOilContactCapillaryPressure row\<rparr>,
       goc = \<lparr>depth = gasOilContactDepth row, press = gasOilContactCapillaryPressure row\<rparr>,
       live_oil_table_index = liveOilInitProceedure row,
       wet_gas_table_index = wetGasInitProceedure row,
       N = initializationTargetAccuracy row \<rparr>"

definition getEquil :: "Deck \<Rightarrow> error + EquilRecord list" where
  "getEquil deck =
     (if hasKeyword deck ''EQUIL'' then
        mapE (\<lambda>row. if N (record_of row) \<noteq> 0
                     then Inl (DomainError ''kw EQUIL, item 9: Only N=0 supported.'')
                     else Inr (record_of row))
             (EQUIL deck)
      else Inl (DomainError ''Deck does not provide equilibration data.''))"

subsection \<open>equilnum\<close>

text \<open>
  \<^verbatim>\<open>(gc == NULL) ? cell : gc[cell]\<close>.
\<close>

definition deck_pos :: "UnstructuredGrid \<Rightarrow> nat \<Rightarrow> error + int" where
  "deck_pos G cell = (case global_cell G of None \<Rightarrow> Inr (int cell) | Some gc \<Rightarrow> vec_at gc (int cell))"

text \<open>
  \<^verbatim>\<open>e[deck_pos] - 1\<close> on a 32-bit \<^verbatim>\<open>int\<close>: the subtraction overflows, without defined
  behaviour, at the least value.
\<close>

definition minus_one :: "int \<Rightarrow> error + int" where
  "minus_one v = (if v = - (2 ^ 31) then Inl UndefinedBehaviour else Inr (v - 1))"

definition equilnum :: "Deck \<Rightarrow> EclipseState \<Rightarrow> UnstructuredGrid \<Rightarrow> error + int list" where
  "equilnum deck eclipseState G =
     (if hasKeyword deck ''EQLNUM'' then
        mapE (\<lambda>cell. ebind (deck_pos G cell) (\<lambda>p. ebind (vec_at (EQLNUM eclipseState) p) minus_one))
             [0 ..< number_of_cells G]
      else Inr (replicate (number_of_cells G) 0))"

subsection \<open>Region mapping\<close>

text \<open>
  Modelled from the spec: \<^verbatim>\<open>RegionMapping\<close> (opm/core/utility/RegionMapping.hpp) is not among
  the sources.  The spec's region membership range is, for a region id, the cells that
  belong to it, in grid cell order; region ids populate \<open>[0, numRegions)\<close>.
\<close>

definition cells :: "int list \<Rightarrow> nat \<Rightarrow> nat list" where
  "cells reg r = filter (\<lambda>c. reg ! c = int r) [0 ..< length reg]"

definition numRegions :: "int list \<Rightarrow> nat" where
  "numRegions reg = nat (fold max reg (- 1) + 1)"

text \<open>\<^verbatim>\<open>*range.begin()\<close>.\<close>

definition first_cell :: "nat list \<Rightarrow> error + nat" where
  "first_cell cs = (case cs of [] \<Rightarrow> Inl UndefinedBehaviour | c # _ \<Rightarrow> Inr c)"

subsection \<open>Miscibility functions of a region\<close>

text \<open>The two messages, for the keyword named (RSVD or RVVD).\<close>

definition table_missing_msg :: "string \<Rightarrow> int \<Rightarrow> string" where
  "table_missing_msg kw t = ''Cannot initialise: '' @ kw @ '' table '' @ decimal (nat t) @ '' not available.''"

definition datum_msg :: "string \<Rightarrow> nat \<Rightarrow> string" where
  "datum_msg kw i =
     ''Cannot initialise: when no explicit '' @ kw @ '' table is given, '' @ [CHR 0x0A]
     @ ''datum depth must be at the gas-oil-contact. ''
     @ ''In EQUIL region '' @ decimal (i + 1) @ ''  (counting from 1), this does not hold.''"

text \<open>
  The body of the loop over the records under DISGAS: region \<open>i\<close>, with \<open>i\<close> below the
  number of records.  The representative cell is read first.
\<close>

definition rs_func_of ::
  "RsvdTable list \<Rightarrow> int list \<Rightarrow> EquilRecord list \<Rightarrow> nat \<Rightarrow> error + RsFunction" where
  "rs_func_of tables eqlmap rec i =
     ebind (first_cell (cells eqlmap i)) (\<lambda>cell.
       if live_oil_table_index (rec ! i) > 0 then
         if length tables > 0 \<and> nat (live_oil_table_index (rec ! i)) \<le> length tables then
           ebind (vec_at tables (int i)) (\<lambda>table.
             Inr (RsVD cell (rsvd_DepthColumn table) (RsColumn table)))
         else Inl (RuntimeError (table_missing_msg ''RSVD'' (live_oil_table_index (rec ! i))))
       else if depth (goc (rec ! i)) \<noteq> depth (main (rec ! i)) then
         Inl (RuntimeError (datum_msg ''RSVD'' i))
       else Inr (RsSatAtContact cell (press (main (rec ! i))) (273.15 + 20)))"

text \<open>The same under VAPOIL.\<close>

definition rv_func_of ::
  "RvvdTable list \<Rightarrow> int list \<Rightarrow> EquilRecord list \<Rightarrow> nat \<Rightarrow> error + RsFunction" where
  "rv_func_of tables eqlmap rec i =
     ebind (first_cell (cells eqlmap i)) (\<lambda>cell.
       if wet_gas_table_index (rec ! i) > 0 then
         if length tables > 0 \<and> nat (wet_gas_table_index (rec ! i)) \<le> length tables then
           ebind (vec_at tables (int i)) (\<lambda>table.
             Inr (RvVD cell (rvvd_DepthColumn table) (RvColumn table)))
         else Inl (RuntimeError (table_missing_msg ''RVVD'' (wet_gas_table_index (rec ! i))))
       else if depth (goc (rec ! i)) \<noteq> depth (main (rec ! i)) then
         Inl (RuntimeError (datum_msg ''RVVD'' i))
       else Inr (RvSatAtContact cell (press (main (rec ! i)) + press (goc (rec ! i))) (273.15 + 20)))"

definition make_rs_func ::
  "Deck \<Rightarrow> EclipseState \<Rightarrow> int list \<Rightarrow> EquilRecord list \<Rightarrow> error + RsFunction list" where
  "make_rs_func deck eclipseState eqlmap rec =
     (if hasKeyword deck ''DISGAS'' then
        mapE (rs_func_of (rsvdTables eclipseState) eqlmap rec) [0 ..< length rec]
      else mapE (\<lambda>i. Inr NoMixing) [0 ..< length rec])"

definition make_rv_func ::
  "Deck \<Rightarrow> EclipseState \<Rightarrow> int list \<Rightarrow> EquilRecord list \<Rightarrow> error + RsFunction list" where
  "make_rv_func deck eclipseState eqlmap rec =
     (if hasKeyword deck ''VAPOIL'' then
        mapE (rv_func_of (rvvdTables eclipseState) eqlmap rec) [0 ..< length rec]
      else mapE (\<lambda>i. Inr NoMixing) [0 ..< length rec])"

definition make_swat_init :: "Deck \<Rightarrow> EclipseState \<Rightarrow> UnstructuredGrid \<Rightarrow> error + real list" where
  "make_swat_init deck eclipseState G =
     (if hasKeyword deck ''SWATINIT'' then
        mapE (\<lambda>c. ebind (deck_pos G c) (vec_at (SWATINIT eclipseState))) [0 ..< number_of_cells G]
      else Inr [])"

subsection \<open>Evaluation of a miscibility function, computeRs\<close>

text \<open>
  What the computer calls without its code being among the sources
  (initStateEquil\_impl.hpp, EquilibrationHelpers.hpp): the pressure integrator, the
  temperature, the saturation solver (which takes the pressures by non-constant reference
  and so returns them too), the saturated ratios of the PVT evaluator and the
  interpolation in a depth table.  They are parameters.
\<close>

record EqReg =
  eq_rec :: EquilRecord
  eq_repcell :: nat
  eq_rs :: RsFunction
  eq_rv :: RsFunction
  eq_pu :: PhaseUsage

record Externals =
  phasePressures :: "UnstructuredGrid \<Rightarrow> EqReg \<Rightarrow> nat list \<Rightarrow> real \<Rightarrow> error + real list list"
  temperature :: "UnstructuredGrid \<Rightarrow> EqReg \<Rightarrow> nat list \<Rightarrow> error + real list"
  phaseSaturations :: "UnstructuredGrid \<Rightarrow> EqReg \<Rightarrow> nat list \<Rightarrow> real list \<Rightarrow> real list list
                         \<Rightarrow> error + (real list list \<times> real list list)"
  satRs :: "nat \<Rightarrow> real \<Rightarrow> real \<Rightarrow> real"
  satRv :: "nat \<Rightarrow> real \<Rightarrow> real \<Rightarrow> real"
  linearInterpolation :: "real list \<Rightarrow> real list \<Rightarrow> real \<Rightarrow> real"

text \<open>
  Modelled from the spec: the evaluation operators of the miscibility functions
  (EquilibrationHelpers.hpp) are not among the sources.  The spec has one operation,
  evaluate (depth, pressure, temperature, saturation of the complementary phase):
  NoMixing is identically zero everywhere; where the saturation is strictly positive the
  other two give the saturated value of the PVT evaluator at the cell's pressure and
  temperature, and otherwise DepthTable interpolates its table at the depth and
  SaturatedAtContact gives the saturated value at its contact pressure and temperature.
\<close>

fun evaluate :: "Externals \<Rightarrow> RsFunction \<Rightarrow> real \<Rightarrow> real \<Rightarrow> real \<Rightarrow> real \<Rightarrow> real" where
  "evaluate ext NoMixing dep p T s = 0"
| "evaluate ext (RsVD cell ds vs) dep p T s =
     (if s > 0 then satRs ext cell p T else linearInterpolation ext ds vs dep)"
| "evaluate ext (RsSatAtContact cell pc Tc) dep p T s =
     (if s > 0 then satRs ext cell p T else satRs ext cell pc Tc)"
| "evaluate ext (RvVD cell ds vs) dep p T s =
     (if s > 0 then satRv ext cell p T else linearInterpolation ext ds vs dep)"
| "evaluate ext (RvSatAtContact cell pc Tc) dep p T s =
     (if s > 0 then satRv ext cell p T else satRv ext cell pc Tc)"

text \<open>
  Modelled from the spec: the body of \<open>computeRs\<close> (initStateEquil\_impl.hpp) is not among
  the sources; its declaration is.  It returns one value for each cell of the range: the
  region's function at the cell's depth and the pressure, temperature and saturation given
  for that cell.  A vector shorter than the range is read outside its bounds.
\<close>

fun computeRs ::
  "Externals \<Rightarrow> UnstructuredGrid \<Rightarrow> nat list \<Rightarrow> real list \<Rightarrow> real list \<Rightarrow> RsFunction \<Rightarrow> real list
     \<Rightarrow> error + real list" where
  "computeRs ext grid [] ps ts rs_func ss = Inr []"
| "computeRs ext grid (c # cs) (p # ps) (t # ts) rs_func (s # ss) =
     ebind (computeRs ext grid cs ps ts rs_func ss)
       (\<lambda>rest. Inr (evaluate ext rs_func (cell_depth grid c) p t s # rest))"
| "computeRs ext grid (c # cs) ps ts rs_func ss = Inl UndefinedBehaviour"

subsection \<open>InitialStateComputer\<close>

text \<open>The members, named without the trailing underscore of the source.\<close>

record InitialStateComputer =
  rs_func :: "RsFunction list"
  rv_func :: "RsFunction list"
  pp :: "real list list"
  sat :: "real list list"
  rs :: "real list"
  rv :: "real list"
  swat_init :: "real list"

fun copyFromRegion :: "real list \<Rightarrow> nat list \<Rightarrow> real list \<Rightarrow> error + real list" where
  "copyFromRegion source [] destination = Inr destination"
| "copyFromRegion [] (c # cs) destination = Inl UndefinedBehaviour"
| "copyFromRegion (s # ss) (c # cs) destination =
     (if c < length destination then copyFromRegion ss cs (destination[c := s])
      else Inl UndefinedBehaviour)"

text \<open>
  One round of the loop over the phases: \<^verbatim>\<open>copyFromRegion(press[p], cells, pp_[p])\<close>, then
  the same for the saturations.
\<close>

definition copy_phase ::
  "real list list \<Rightarrow> real list list \<Rightarrow> nat list \<Rightarrow> nat \<Rightarrow> InitialStateComputer
     \<Rightarrow> error + InitialStateComputer" where
  "copy_phase press_r sat_r cs p this =
     ebind (vec_at press_r (int p)) (\<lambda>src.
     ebind (vec_at (pp this) (int p)) (\<lambda>dst.
     ebind (copyFromRegion src cs dst) (\<lambda>dst'.
     ebind (vec_at sat_r (int p)) (\<lambda>ssrc.
     ebind (vec_at (sat this) (int p)) (\<lambda>sdst.
     ebind (copyFromRegion ssrc cs sdst) (\<lambda>sdst'.
     Inr (this\<lparr>pp := (pp this)[p := dst'], sat := (sat this)[p := sdst']\<rparr>)))))))"

text \<open>The part under the test that oil and gas are both used.\<close>

definition copy_rs_rv ::
  "Externals \<Rightarrow> BlackoilPropertiesInterface \<Rightarrow> UnstructuredGrid \<Rightarrow> real list list \<Rightarrow> real list list
     \<Rightarrow> real list \<Rightarrow> nat list \<Rightarrow> RsFunction \<Rightarrow> RsFunction \<Rightarrow> InitialStateComputer
     \<Rightarrow> error + InitialStateComputer" where
  "copy_rs_rv ext props G press_r sat_r temp cs rsf rvf this =
     (let oilpos = phase_pos (phaseUsage props) Liquid;
          gaspos = phase_pos (phaseUsage props) Vapour in
      ebind (vec_at press_r oilpos) (\<lambda>po.
      ebind (vec_at sat_r gaspos) (\<lambda>sg.
      ebind (computeRs ext G cs po temp rsf sg) (\<lambda>rs_r.
      ebind (vec_at press_r gaspos) (\<lambda>pg.
      ebind (vec_at sat_r oilpos) (\<lambda>so.
      ebind (computeRs ext G cs pg temp rvf so) (\<lambda>rv_r.
      ebind (copyFromRegion rs_r cs (rs this)) (\<lambda>rs'.
      ebind (copyFromRegion rv_r cs (rv this)) (\<lambda>rv'.
      Inr (this\<lparr>rs := rs', rv := rv'\<rparr>))))))))))"

text \<open>The pressures and saturations of region \<open>r\<close>, as the pressure integrator and the
  saturation solver give them.\<close>

definition region_values ::
  "Externals \<Rightarrow> BlackoilPropertiesInterface \<Rightarrow> UnstructuredGrid \<Rightarrow> real \<Rightarrow> int list
     \<Rightarrow> EquilRecord list \<Rightarrow> nat \<Rightarrow> InitialStateComputer
     \<Rightarrow> error + (real list list \<times> real list \<times> real list list)" where
  "region_values ext props G grav reg rec r this =
     ebind (first_cell (cells reg r)) (\<lambda>repcell.
     ebind (vec_at rec (int r)) (\<lambda>rec_r.
     ebind (vec_at (rs_func this) (int r)) (\<lambda>rsf.
     ebind (vec_at (rv_func this) (int r)) (\<lambda>rvf.
     let eqreg = \<lparr>eq_rec = rec_r, eq_repcell = repcell, eq_rs = rsf, eq_rv = rvf,
                  eq_pu = phaseUsage props\<rparr> in
     ebind (phasePressures ext G eqreg (cells reg r) grav) (\<lambda>press0.
     ebind (temperature ext G eqreg (cells reg r)) (\<lambda>temp.
     ebind (phaseSaturations ext G eqreg (cells reg r) (swat_init this) press0) (\<lambda>(sat_r, press_r).
     Inr (press_r, temp, sat_r))))))))"

text \<open>The body of the loop over the regions.\<close>

definition calc_region ::
  "Externals \<Rightarrow> BlackoilPropertiesInterface \<Rightarrow> UnstructuredGrid \<Rightarrow> real \<Rightarrow> int list
     \<Rightarrow> EquilRecord list \<Rightarrow> nat \<Rightarrow> InitialStateComputer \<Rightarrow> error + InitialStateComputer" where
  "calc_region ext props G grav reg rec r this =
     ebind (region_values ext props G grav reg rec r this) (\<lambda>(press_r, temp, sat_r).
     ebind (foldE (copy_phase press_r sat_r (cells reg r)) [0 ..< props_numPhases props] this) (\<lambda>this1.
     if phase_used (phaseUsage props) Liquid \<and> phase_used (phaseUsage props) Vapour then
       copy_rs_rv ext props G press_r sat_r temp (cells reg r)
         (rs_func this ! r) (rv_func this ! r) this1
     else Inr this1))"

definition calcPressSatRsRv ::
  "Externals \<Rightarrow> int list \<Rightarrow> EquilRecord list \<Rightarrow> BlackoilPropertiesInterface \<Rightarrow> UnstructuredGrid
     \<Rightarrow> real \<Rightarrow> InitialStateComputer \<Rightarrow> error + InitialStateComputer" where
  "calcPressSatRsRv ext reg rec props G grav this =
     foldE (calc_region ext props G grav reg rec) [0 ..< numRegions reg] this"

text \<open>
  The constructor.  The member initialisers come first: zero-filled arrays, one row for
  each phase.  An exception leaves no object.
\<close>

definition initial_members :: "BlackoilPropertiesInterface \<Rightarrow> UnstructuredGrid \<Rightarrow> InitialStateComputer" where
  "initial_members props G =
     \<lparr> rs_func = [], rv_func = [],
       pp = replicate (props_numPhases props) (replicate (number_of_cells G) 0),
       sat = replicate (props_numPhases props) (replicate (number_of_cells G) 0),
       rs = replicate (number_of_cells G) 0,
       rv = replicate (number_of_cells G) 0,
       swat_init = [] \<rparr>"

definition new_InitialStateComputer ::
  "Externals \<Rightarrow> BlackoilPropertiesInterface \<Rightarrow> Deck \<Rightarrow> EclipseState \<Rightarrow> UnstructuredGrid \<Rightarrow> real
     \<Rightarrow> error + InitialStateComputer" where
  "new_InitialStateComputer ext props deck eclipseState G grav =
     ebind (getEquil deck) (\<lambda>rec.
     ebind (equilnum deck eclipseState G) (\<lambda>eqlmap.
     ebind (make_rs_func deck eclipseState eqlmap rec) (\<lambda>rsf.
     ebind (make_rv_func deck eclipseState eqlmap rec) (\<lambda>rvf.
     ebind (make_swat_init deck eclipseState G) (\<lambda>swi.
     calcPressSatRsRv ext eqlmap rec props G grav
       ((initial_members props G)\<lparr>rs_func := rsf, rv_func := rvf, swat_init := swi\<rparr>))))))"

section \<open>Vocabulary of the statements\<close>


text \<open>The test that guards the Rs and Rv part of the loop over the regions.\<close>

definition both_used :: "BlackoilPropertiesInterface \<Rightarrow> bool" where
  "both_used props \<longleftrightarrow> phase_used (phaseUsage props) Liquid \<and> phase_used (phaseUsage props) Vapour"

text \<open>
  \<open>written cs src row row'\<close>: the row \<open>row'\<close> is \<open>row\<close> with the values of \<open>src\<close>
  scattered to the cells \<open>cs\<close>.
\<close>

definition written :: "nat list \<Rightarrow> real list \<Rightarrow> real list \<Rightarrow> real list \<Rightarrow> bool" where
  "written cs src row row' \<longleftrightarrow>
     length row' = length row \<and> (\<forall>k<length cs. row' ! (cs ! k) = src ! k)
     \<and> (\<forall>c. c \<notin> set cs \<longrightarrow> row' ! c = row ! c)"

text \<open>The array \<open>xs\<close> is zero at every cell of every region whose function is NoMixing.\<close>

definition nomixing_zero :: "int list \<Rightarrow> RsFunction list \<Rightarrow> real list \<Rightarrow> bool" where
  "nomixing_zero reg fs xs \<longleftrightarrow> (\<forall>r c. fs ! r = NoMixing \<longrightarrow> c \<in> set (cells reg r) \<longrightarrow> xs ! c = 0)"


section \<open>Sample inputs\<close>

text \<open>A deck for an oil-water system, its phase usage, and an object that \<open>init\<close> has not yet seen.\<close>

definition deck_wo :: Deck where
  "deck_wo = \<lparr> keyword_list =
      [(''DENSITY'', [ [(''OIL'', [800]), (''WATER'', [1000]), (''GAS'', [1])] ]),
       (''PVTW'', [ [(''WATER_COMPRESSIBILITY'', [0]), (''WATER_VISCOSIBILITY'', [0]),
                    (''WATER_VOL_FACTOR'', [2]), (''WATER_VISCOSITY'', [1 / 1000])] ]),
       (''PVCDO'', [ [(''OIL_COMPRESSIBILITY'', [0]), (''OIL_VISCOSIBILITY'', [0]),
                     (''OIL_VOL_FACTOR'', [4]), (''OIL_VISCOSITY'', [5 / 1000])] ])],
     EQUIL = [] \<rparr>"


definition usage3 :: PhaseUsage where
  "usage3 = \<lparr> num_phases = 3, phase_used = (\<lambda>p. True),
      phase_pos = (\<lambda>p. case p of Aqua \<Rightarrow> 0 | Liquid \<Rightarrow> 1 | Vapour \<Rightarrow> 2) \<rparr>"

definition pvt_fresh :: PvtPropertiesIncompFromDeck where
  "pvt_fresh = \<lparr> surface_density = [7, 7], reservoir_density = [7, 7], viscosity = [7, 7] \<rparr>"

text \<open>Equilibration: one region with datum and contacts at the same depth, and variants.\<close>

definition row_ok :: EquilWrapperRow where
  "row_ok = \<lparr> datumDepth = 2000, datumDepthPressure = 30000000,
      waterOilContactDepth = 2000, waterOilContactCapillaryPressure = 0,
      gasOilContactDepth = 2000, gasOilContactCapillaryPressure = 0,
      liveOilInitProceedure = 0, wetGasInitProceedure = 0,
      initializationTargetAccuracy = 0 \<rparr>"

definition row_goc_above :: EquilWrapperRow where
  "row_goc_above = row_ok\<lparr>gasOilContactDepth := 1900\<rparr>"

definition deck_plain :: Deck where
  "deck_plain = \<lparr> keyword_list = [(''EQUIL'', [])], EQUIL = [row_ok] \<rparr>"

definition deck_accuracy5 :: Deck where
  "deck_accuracy5 = \<lparr> keyword_list = [(''EQUIL'', [])],
      EQUIL = [row_ok\<lparr>initializationTargetAccuracy := 5\<rparr>] \<rparr>"

definition deck_mixing :: "EquilWrapperRow list \<Rightarrow> Deck" where
  "deck_mixing rows =
     \<lparr> keyword_list = [(''EQUIL'', []), (''DISGAS'', []), (''VAPOIL'', [])], EQUIL = rows \<rparr>"

definition deck_eqlnum :: Deck where
  "deck_eqlnum = \<lparr> keyword_list = [(''EQUIL'', []), (''EQLNUM'', [])], EQUIL = [row_ok, row_ok] \<rparr>"

definition es_none :: EclipseState where
  "es_none = \<lparr> rsvdTables = [], rvvdTables = [], EQLNUM = [], SWATINIT = [] \<rparr>"

definition es_eqlnum :: EclipseState where
  "es_eqlnum = \<lparr> rsvdTables = [], rvvdTables = [], EQLNUM = [3, 1, 2], SWATINIT = [] \<rparr>"

definition table_a :: RsvdTable where
  "table_a = \<lparr> rsvd_DepthColumn = [1000, 3000], RsColumn = [50, 60] \<rparr>"

definition table_b :: RsvdTable where
  "table_b = \<lparr> rsvd_DepthColumn = [1000, 3000], RsColumn = [80, 90] \<rparr>"

definition es_rsvd :: "RsvdTable list \<Rightarrow> EclipseState" where
  "es_rsvd tables = \<lparr> rsvdTables = tables, rvvdTables = [], EQLNUM = [], SWATINIT = [] \<rparr>"

definition grid2 :: UnstructuredGrid where
  "grid2 = \<lparr> number_of_cells = 2, global_cell = None, cell_depth = (\<lambda>c. 1990 + 20 * real c) \<rparr>"

definition grid_gc :: UnstructuredGrid where
  "grid_gc = \<lparr> number_of_cells = 2, global_cell = Some [2, 0], cell_depth = (\<lambda>c. 2000) \<rparr>"

definition props3 :: BlackoilPropertiesInterface where
  "props3 = \<lparr> props_numPhases = 3, phaseUsage = usage3 \<rparr>"


text \<open>Stand-ins for the pressure integrator, the saturation solver and the PVT evaluator.\<close>

definition ext_sample :: "nat \<Rightarrow> Externals" where
  "ext_sample np = \<lparr>
      phasePressures = (\<lambda>G reg cs grav. Inr (map (\<lambda>p. map (\<lambda>c. 100 * real (p + 1) + real c) cs) [0 ..< np])),
      temperature = (\<lambda>G reg cs. Inr (map (\<lambda>c. 293.15) cs)),
      phaseSaturations = (\<lambda>G reg cs swat press. Inr (map (\<lambda>p. map (\<lambda>c. 1 / real np) cs) [0 ..< np], press)),
      satRs = (\<lambda>cell p T. 7),
      satRv = (\<lambda>cell p T. 9),
      linearInterpolation = (\<lambda>xs ys x. 11) \<rparr>"

section \<open>Lemmas\<close>

subsection \<open>Sequencing, vectors, iteration\<close>

lemma ebind_Inr_iff: "ebind m f = Inr y \<longleftrightarrow> (\<exists>x. m = Inr x \<and> f x = Inr y)"
  by (cases m) (simp_all add: ebind_def)

lemma ebind_simps [simp]: "ebind (Inl e) f = Inl e" "ebind (Inr x) f = f x"
  by (simp_all add: ebind_def)

lemma vec_at_nat: "vec_at xs (int i) = (if i < length xs then Inr (xs ! i) else Inl UndefinedBehaviour)"
  by (simp add: vec_at_def)

lemma mapE_Inr_iff:
  "mapE f xs = Inr ys \<longleftrightarrow> length ys = length xs \<and> (\<forall>k<length xs. f (xs ! k) = Inr (ys ! k))"
proof (induction xs arbitrary: ys)
  case Nil
  then show ?case by auto
next
  case (Cons x xs)
  show ?case
  proof (cases ys)
    case Nil
    then show ?thesis by (auto simp: ebind_Inr_iff)
  next
    case (Cons y ys')
    then show ?thesis
      by (auto simp: ebind_Inr_iff Cons.IH nth_Cons split: nat.splits)
  qed
qed

lemma mapE_all_Inr: "(\<forall>x\<in>set xs. f x = Inr (g x)) \<Longrightarrow> mapE f xs = Inr (map g xs)"
  by (induction xs) auto

lemma mapE_Inl_ex: "x \<in> set xs \<Longrightarrow> f x = Inl e \<Longrightarrow> \<exists>e'. mapE f xs = Inl e'"
proof (induction xs)
  case Nil
  then show ?case by simp
next
  case (Cons a xs)
  then show ?case
    by (cases "f a"; cases "mapE f xs") auto
qed

lemma mapE_same_error:
  "\<exists>x\<in>set xs. f x = Inl e \<Longrightarrow> \<forall>x\<in>set xs. f x = Inl e \<or> (\<exists>y. f x = Inr y) \<Longrightarrow> mapE f xs = Inl e"
proof (induction xs)
  case Nil
  then show ?case by simp
next
  case (Cons a xs)
  show ?case
  proof (cases "f a")
    case (Inl e')
    with Cons.prems show ?thesis by auto
  next
    case (Inr y)
    with Cons.prems have "\<exists>x\<in>set xs. f x = Inl e" by auto
    with Cons have "mapE f xs = Inl e" by auto
    with Inr show ?thesis by simp
  qed
qed

lemma foldE_append: "foldE f (xs @ ys) s = ebind (foldE f xs s) (foldE f ys)"
  by (induction xs arbitrary: s) (auto simp: ebind_def split: sum.splits)

lemma foldE_prefix_invariant:
  assumes "foldE f ys s = Inr s'"
    and "P [] s"
    and "\<And>pre x suf t t'. ys = pre @ x # suf \<Longrightarrow> P pre t \<Longrightarrow> f x t = Inr t' \<Longrightarrow> P (pre @ [x]) t'"
  shows "P ys s'"
proof -
  have "foldE f suf t = Inr s' \<Longrightarrow> ys = pre @ suf \<Longrightarrow> P pre t \<Longrightarrow> P ys s'" for pre suf t
  proof (induction suf arbitrary: pre t)
    case Nil
    then show ?case by simp
  next
    case (Cons x suf)
    from Cons.prems(1) obtain t' where fx: "f x t = Inr t'" and rest: "foldE f suf t' = Inr s'"
      by (auto simp: ebind_Inr_iff)
    from assms(3)[OF Cons.prems(2) Cons.prems(3) fx] have "P (pre @ [x]) t'" .
    from Cons.IH[OF rest _ this] Cons.prems(2) show ?case by simp
  qed
  from this[OF assms(1) _ assms(2)] show ?thesis by simp
qed

lemma foldE_invariant:
  assumes "foldE f ys s = Inr s'" and "P s"
    and "\<And>x t t'. x \<in> set ys \<Longrightarrow> P t \<Longrightarrow> f x t = Inr t' \<Longrightarrow> P t'"
  shows "P s'"
  using foldE_prefix_invariant[where P = "\<lambda>_. P", OF assms(1) assms(2)] assms(3)
  by (metis in_set_conv_decomp)

lemma mapE_const: "mapE (\<lambda>i. Inr c) xs = Inr (replicate (length xs) c)"
  by (induction xs) auto

lemma mapE_upt_nth:
  "mapE f [0 ..< n] = Inr ys \<Longrightarrow> i < n \<Longrightarrow> f i = Inr (ys ! i)"
  by (simp add: mapE_Inr_iff)

lemma mapE_upt_fail:
  "i < n \<Longrightarrow> f i = Inl e \<Longrightarrow> \<exists>e'. mapE f [0 ..< n] = Inl e'"
  by (rule mapE_Inl_ex[of i]) simp_all

lemma upt_split_nth:
  assumes "[0 ..< n] = pre @ x # suf"
  shows "x = length pre"
proof -
  have "length [0 ..< n] = length (pre @ x # suf)" using assms by simp
  then have lt: "length pre < n" by simp
  have "[0 ..< n] ! length pre = x" unfolding assms by simp
  with lt show ?thesis by simp
qed

lemma upt_2: "[0 ..< 2] = [0, 1]"
  by (simp add: upt_rec)

lemma upt_3: "[0 ..< 3] = [0, 1, 2]"
  by (simp add: upt_rec)

lemma vec_at_Inr_iff: "vec_at xs i = Inr y \<longleftrightarrow> 0 \<le> i \<and> nat i < length xs \<and> y = xs ! nat i"
  by (auto simp: vec_at_def)





subsection \<open>PvtPropertiesIncompFromDeck\<close>







section \<open>The claims: PvtPropertiesIncompFromDeck\<close>



text \<open>
  C10.  When the phase usage of the deck is not exactly water and oil (gas is used, or
  water is not, or oil is not), \<open>init\<close> throws a runtime error and the object is as it was:
  no density and no viscosity has been assigned.  The message asks for gas and oil
  phases.  \<open>numPhases\<close> is 2 for every object.
\<close>

theorem init_rejects_phase_usage:
  assumes "phaseUsageFromDeck deck = Inr pu"
    and "phase_used pu Vapour \<or> \<not> phase_used pu Aqua \<or> \<not> phase_used pu Liquid"
  shows "init phaseUsageFromDeck deck this = (Some (RuntimeError init_msg), this)
       \<and> (\<exists>a b. init_msg = a @ ''must have gas and oil phases (only)'' @ b)
       \<and> numPhases this = 2"
proof -
  have "init_msg = ''PvtPropertiesIncompFromDeck::init() -- '' @ ''must have gas and oil phases (only)'' @ '' in deck input.'' @ [CHR 0x0A]"
    by (simp add: init_msg_def)
  then have "\<exists>a b. init_msg = a @ ''must have gas and oil phases (only)'' @ b" by blast
  then show ?thesis using assms by (auto simp: init_def attempt_def numPhases_def)
qed

theorem init_rejects_phase_usage_witness:
  "phase_used usage3 Vapour
   \<and> init (\<lambda>_. Inr usage3) deck_wo pvt_fresh = (Some (RuntimeError init_msg), pvt_fresh)
   \<and> numPhases pvt_fresh = 2"
proof -
  have g: "phase_used usage3 Vapour \<or> \<not> phase_used usage3 Aqua \<or> \<not> phase_used usage3 Liquid"
    by (simp add: usage3_def)
  from init_rejects_phase_usage[of "\<lambda>_. Inr usage3" deck_wo usage3 pvt_fresh, OF refl g]
  show ?thesis by (simp add: usage3_def)
qed

section \<open>Lemmas: equilibration\<close>

subsection \<open>Records and region ids\<close>

lemma N_record_of [simp]: "N (record_of row) = initializationTargetAccuracy row"
  by (simp add: record_of_def)

lemma getEquil_reject:
  assumes "hasKeyword deck ''EQUIL''" and "\<exists>row\<in>set (EQUIL deck). initializationTargetAccuracy row \<noteq> 0"
  shows "getEquil deck = Inl (DomainError ''kw EQUIL, item 9: Only N=0 supported.'')"
  unfolding getEquil_def using assms
  by (auto intro!: mapE_same_error)

lemma getEquil_accept:
  assumes "hasKeyword deck ''EQUIL''" and "\<forall>row\<in>set (EQUIL deck). initializationTargetAccuracy row = 0"
  shows "getEquil deck = Inr (map record_of (EQUIL deck))"
  unfolding getEquil_def using assms
  by (auto intro!: mapE_all_Inr)

lemma minus_one_Inr_iff: "minus_one v = Inr w \<longleftrightarrow> v \<noteq> - (2 ^ 31) \<and> w = v - 1"
  unfolding minus_one_def by (cases "v = - (2 ^ 31)") auto

lemma region_id_Inr_iff:
  "ebind (deck_pos G cell) (\<lambda>p. ebind (vec_at e p) minus_one) = Inr v \<longleftrightarrow>
     (\<exists>p. deck_pos G cell = Inr p \<and> 0 \<le> p \<and> nat p < length e \<and> e ! nat p \<noteq> - (2 ^ 31) \<and> v = e ! nat p - 1)"
  unfolding ebind_Inr_iff vec_at_Inr_iff minus_one_Inr_iff by blast

lemma equilnum_Inr_iff:
  assumes "hasKeyword deck ''EQLNUM''"
  shows "equilnum deck es G = Inr ids \<longleftrightarrow>
     length ids = number_of_cells G \<and>
     (\<forall>cell<number_of_cells G. \<exists>p. deck_pos G cell = Inr p \<and> 0 \<le> p \<and> nat p < length (EQLNUM es)
         \<and> EQLNUM es ! nat p \<noteq> - (2 ^ 31) \<and> ids ! cell = EQLNUM es ! nat p - 1)"
proof -
  have "equilnum deck es G = Inr ids \<longleftrightarrow>
      length ids = number_of_cells G \<and>
      (\<forall>k<number_of_cells G.
         ebind (deck_pos G k) (\<lambda>p. ebind (vec_at (EQLNUM es) p) minus_one) = Inr (ids ! k))"
    using assms by (simp add: equilnum_def mapE_Inr_iff)
  then show ?thesis
    unfolding region_id_Inr_iff .
qed

lemma equilnum_length: "equilnum deck es G = Inr ids \<Longrightarrow> length ids = number_of_cells G"
  by (auto simp: equilnum_def mapE_Inr_iff split: if_splits)

subsection \<open>Regions and copies\<close>

lemma cells_distinct: "distinct (cells reg r)"
  by (simp add: cells_def)

lemma cells_bound: "c \<in> set (cells reg r) \<Longrightarrow> c < length reg"
  by (simp add: cells_def)

lemma cells_region: "c \<in> set (cells reg r) \<Longrightarrow> c \<in> set (cells reg r') \<Longrightarrow> r = r'"
  by (auto simp: cells_def)

lemma first_cell_Inr_iff: "first_cell cs = Inr c \<longleftrightarrow> cs \<noteq> [] \<and> c = hd cs"
  by (cases cs) (auto simp: first_cell_def)

lemma copyFromRegion_length:
  "copyFromRegion src cs dst = Inr dst' \<Longrightarrow> length dst' = length dst"
  by (induction src cs dst rule: copyFromRegion.induct) (auto split: if_splits)

lemma copyFromRegion_outside:
  "copyFromRegion src cs dst = Inr dst' \<Longrightarrow> c \<notin> set cs \<Longrightarrow> dst' ! c = dst ! c"
  by (induction src cs dst rule: copyFromRegion.induct) (auto split: if_splits)

lemma copyFromRegion_bounds:
  "copyFromRegion src cs dst = Inr dst' \<Longrightarrow> length cs \<le> length src \<and> (\<forall>c\<in>set cs. c < length dst)"
proof (induction src cs dst rule: copyFromRegion.induct)
  case (3 s ss c cs destination)
  then show ?case by (auto split: if_splits)
qed auto

lemma copyFromRegion_inside:
  "copyFromRegion src cs dst = Inr dst' \<Longrightarrow> distinct cs \<Longrightarrow> k < length cs \<Longrightarrow> dst' ! (cs ! k) = src ! k"
proof (induction src cs dst arbitrary: k rule: copyFromRegion.induct)
  case (3 s ss c cs destination)
  from "3.prems" have lt: "c < length destination"
    and rest: "copyFromRegion ss cs (destination[c := s]) = Inr dst'"
    by (auto split: if_splits)
  show ?case
  proof (cases k)
    case 0
    from "3.prems" have "c \<notin> set cs" by simp
    from copyFromRegion_outside[OF rest this] lt 0 show ?thesis by simp
  next
    case (Suc j)
    with "3.IH"[OF lt rest, of j] "3.prems" show ?thesis by simp
  qed
qed auto

lemma copyFromRegion_values:
  "copyFromRegion src cs dst = Inr dst' \<Longrightarrow> c \<in> set cs \<Longrightarrow> dst' ! c \<in> set src"
proof (induction src cs dst rule: copyFromRegion.induct)
  case (3 s ss c' cs destination)
  from "3.prems" have lt: "c' < length destination"
    and rest: "copyFromRegion ss cs (destination[c' := s]) = Inr dst'"
    by (auto split: if_splits)
  show ?case
  proof (cases "c \<in> set cs")
    case True
    from "3.IH"[OF lt rest True] show ?thesis by simp
  next
    case False
    with "3.prems" have "c = c'" by simp
    with copyFromRegion_outside[OF rest False] lt show ?thesis by simp
  qed
qed auto

lemma copyFromRegion_total:
  "length cs \<le> length src \<Longrightarrow> \<forall>c\<in>set cs. c < length dst \<Longrightarrow> \<exists>dst'. copyFromRegion src cs dst = Inr dst'"
  by (induction src cs dst rule: copyFromRegion.induct) auto

lemma copyFromRegion_written:
  "copyFromRegion src cs dst = Inr dst' \<Longrightarrow> distinct cs \<Longrightarrow> written cs src dst dst'"
  unfolding written_def
  using copyFromRegion_length copyFromRegion_inside copyFromRegion_outside by blast

lemma computeRs_NoMixing:
  "computeRs ext grid cs ps ts NoMixing ss = Inr xs \<Longrightarrow> xs = replicate (length cs) 0"
  by (induction ext grid cs ps ts NoMixing ss arbitrary: xs rule: computeRs.induct)
     (auto simp: ebind_Inr_iff)

subsection \<open>Miscibility functions of the regions\<close>

lemma make_rs_func_nomixing:
  "\<not> hasKeyword deck ''DISGAS'' \<Longrightarrow> make_rs_func deck es eqlmap rec = Inr (replicate (length rec) NoMixing)"
  by (simp add: make_rs_func_def mapE_const)

lemma make_rv_func_nomixing:
  "\<not> hasKeyword deck ''VAPOIL'' \<Longrightarrow> make_rv_func deck es eqlmap rec = Inr (replicate (length rec) NoMixing)"
  by (simp add: make_rv_func_def mapE_const)

lemma rs_func_of_contact:
  assumes "live_oil_table_index (rec ! i) \<le> 0"
  shows "rs_func_of tables eqlmap rec i =
    (if cells eqlmap i = [] then Inl UndefinedBehaviour
     else if depth (goc (rec ! i)) \<noteq> depth (main (rec ! i)) then Inl (RuntimeError (datum_msg ''RSVD'' i))
     else Inr (RsSatAtContact (hd (cells eqlmap i)) (press (main (rec ! i))) (273.15 + 20)))"
  using assms unfolding rs_func_of_def first_cell_def
  by (cases "cells eqlmap i") simp_all

lemma rv_func_of_contact:
  assumes "wet_gas_table_index (rec ! i) \<le> 0"
  shows "rv_func_of tables eqlmap rec i =
    (if cells eqlmap i = [] then Inl UndefinedBehaviour
     else if depth (goc (rec ! i)) \<noteq> depth (main (rec ! i)) then Inl (RuntimeError (datum_msg ''RVVD'' i))
     else Inr (RvSatAtContact (hd (cells eqlmap i)) (press (main (rec ! i)) + press (goc (rec ! i))) (273.15 + 20)))"
  using assms unfolding rv_func_of_def first_cell_def
  by (cases "cells eqlmap i") simp_all

subsection \<open>The loop over the regions\<close>

lemma copy_phase_Inr:
  assumes "copy_phase press_r sat_r cs p this = Inr this'"
  shows "\<exists>dst' sdst'. p < length press_r \<and> p < length (pp this) \<and> p < length sat_r \<and> p < length (sat this)
      \<and> copyFromRegion (press_r ! p) cs (pp this ! p) = Inr dst'
      \<and> copyFromRegion (sat_r ! p) cs (sat this ! p) = Inr sdst'
      \<and> this' = this\<lparr>pp := (pp this)[p := dst'], sat := (sat this)[p := sdst']\<rparr>"
  using assms unfolding copy_phase_def
  by (auto simp: ebind_Inr_iff vec_at_nat split: if_splits)

lemma copy_phases_effect:
  assumes run: "foldE (copy_phase press_r sat_r cs) [0 ..< np] this = Inr this'"
    and dist: "distinct cs"
  shows "rs_func this' = rs_func this \<and> rv_func this' = rv_func this \<and> swat_init this' = swat_init this
     \<and> rs this' = rs this \<and> rv this' = rv this
     \<and> length (pp this') = length (pp this) \<and> length (sat this') = length (sat this)
     \<and> np \<le> length press_r \<and> np \<le> length sat_r
     \<and> (\<forall>p<np. written cs (press_r ! p) (pp this ! p) (pp this' ! p)
               \<and> written cs (sat_r ! p) (sat this ! p) (sat this' ! p))
     \<and> (\<forall>p. np \<le> p \<longrightarrow> pp this' ! p = pp this ! p \<and> sat this' ! p = sat this ! p)"
proof -
  let ?P = "\<lambda>pre t. rs_func t = rs_func this \<and> rv_func t = rv_func this \<and> swat_init t = swat_init this
     \<and> rs t = rs this \<and> rv t = rv this
     \<and> length (pp t) = length (pp this) \<and> length (sat t) = length (sat this)
     \<and> length pre \<le> length press_r \<and> length pre \<le> length sat_r
     \<and> (\<forall>p<length pre. written cs (press_r ! p) (pp this ! p) (pp t ! p)
               \<and> written cs (sat_r ! p) (sat this ! p) (sat t ! p))
     \<and> (\<forall>p. length pre \<le> p \<longrightarrow> pp t ! p = pp this ! p \<and> sat t ! p = sat this ! p)"
  have "?P [0 ..< np] this'"
  proof (rule foldE_prefix_invariant[OF run, where P = ?P])
    show "?P [] this" by simp
  next
    fix pre x suf t t'
    assume split: "[0 ..< np] = pre @ x # suf" and inv: "?P pre t"
      and step: "copy_phase press_r sat_r cs x t = Inr t'"
    have x: "x = length pre"
      using split by (rule upt_split_nth)
    from copy_phase_Inr[OF step] obtain dst' sdst' where
      b: "x < length press_r" "x < length (pp t)" "x < length sat_r" "x < length (sat t)" and
      c1: "copyFromRegion (press_r ! x) cs (pp t ! x) = Inr dst'" and
      c2: "copyFromRegion (sat_r ! x) cs (sat t ! x) = Inr sdst'" and
      t': "t' = t\<lparr>pp := (pp t)[x := dst'], sat := (sat t)[x := sdst']\<rparr>"
      by blast
    from inv x have same: "pp t ! x = pp this ! x" "sat t ! x = sat this ! x" by auto
    have w1: "written cs (press_r ! x) (pp this ! x) dst'"
      using copyFromRegion_written[OF c1 dist] same by simp
    have w2: "written cs (sat_r ! x) (sat this ! x) sdst'"
      using copyFromRegion_written[OF c2 dist] same by simp
    have l: "length (pp t) = length (pp this)" "length (sat t) = length (sat this)"
      using inv by auto
    have new: "\<forall>p<Suc (length pre). written cs (press_r ! p) (pp this ! p) (pp t' ! p)
               \<and> written cs (sat_r ! p) (sat this ! p) (sat t' ! p)"
    proof (intro allI impI)
      fix p assume "p < Suc (length pre)"
      then consider "p < length pre" | "p = length pre" by linarith
      then show "written cs (press_r ! p) (pp this ! p) (pp t' ! p)
               \<and> written cs (sat_r ! p) (sat this ! p) (sat t' ! p)"
      proof cases
        case 1
        with inv have "written cs (press_r ! p) (pp this ! p) (pp t ! p)
               \<and> written cs (sat_r ! p) (sat this ! p) (sat t ! p)" by blast
        with 1 show ?thesis by (simp add: t' x)
      next
        case 2
        with w1 w2 b show ?thesis by (simp add: t' x)
      qed
    qed
    have old: "\<forall>p. Suc (length pre) \<le> p \<longrightarrow> pp t' ! p = pp this ! p \<and> sat t' ! p = sat this ! p"
      using inv by (simp add: t' x)
    have frame: "rs_func t' = rs_func this \<and> rv_func t' = rv_func this \<and> swat_init t' = swat_init this
     \<and> rs t' = rs this \<and> rv t' = rv this
     \<and> length (pp t') = length (pp this) \<and> length (sat t') = length (sat this)"
      using inv by (simp add: t')
    have len: "length (pre @ [x]) \<le> length press_r \<and> length (pre @ [x]) \<le> length sat_r"
      using b by (simp add: x)
    show "?P (pre @ [x]) t'"
      using frame len new old by simp
  qed
  then show ?thesis by simp
qed


lemma region_values_Inr:
  "region_values ext props G grav reg rec r this = Inr v \<Longrightarrow>
     cells reg r \<noteq> [] \<and> r < length rec \<and> r < length (rs_func this) \<and> r < length (rv_func this)"
  unfolding region_values_def
  by (auto simp: ebind_Inr_iff vec_at_nat first_cell_def split: if_splits list.splits)

lemma copy_rs_rv_Inr:
  assumes "copy_rs_rv ext props G press_r sat_r temp cs rsf rvf this = Inr this'"
  shows "\<exists>po sg pg so rs_r rv_r rs' rv'.
      computeRs ext G cs po temp rsf sg = Inr rs_r \<and> computeRs ext G cs pg temp rvf so = Inr rv_r
    \<and> copyFromRegion rs_r cs (rs this) = Inr rs' \<and> copyFromRegion rv_r cs (rv this) = Inr rv'
    \<and> this' = this\<lparr>rs := rs', rv := rv'\<rparr>"
  using assms unfolding copy_rs_rv_def Let_def ebind_Inr_iff by blast

lemma calc_region_Inr:
  assumes "calc_region ext props G grav reg rec r this = Inr this'"
  shows "\<exists>press_r temp sat_r this1.
      region_values ext props G grav reg rec r this = Inr (press_r, temp, sat_r)
    \<and> foldE (copy_phase press_r sat_r (cells reg r)) [0 ..< props_numPhases props] this = Inr this1
    \<and> (if both_used props
        then copy_rs_rv ext props G press_r sat_r temp (cells reg r) (rs_func this ! r) (rv_func this ! r) this1
             = Inr this'
        else this' = this1)"
proof -
  from assms obtain v where rv: "region_values ext props G grav reg rec r this = Inr v"
    and k: "(case v of (press_r, temp, sat_r) \<Rightarrow>
       ebind (foldE (copy_phase press_r sat_r (cells reg r)) [0 ..< props_numPhases props] this) (\<lambda>this1.
         if phase_used (phaseUsage props) Liquid \<and> phase_used (phaseUsage props) Vapour then
           copy_rs_rv ext props G press_r sat_r temp (cells reg r) (rs_func this ! r) (rv_func this ! r) this1
         else Inr this1)) = Inr this'"
    unfolding calc_region_def ebind_Inr_iff[of "region_values ext props G grav reg rec r this"] by blast
  obtain press_r temp sat_r where v: "v = (press_r, temp, sat_r)" by (cases v) auto
  from k[unfolded v] obtain this1 where
    f: "foldE (copy_phase press_r sat_r (cells reg r)) [0 ..< props_numPhases props] this = Inr this1"
    and c: "(if phase_used (phaseUsage props) Liquid \<and> phase_used (phaseUsage props) Vapour then
           copy_rs_rv ext props G press_r sat_r temp (cells reg r) (rs_func this ! r) (rv_func this ! r) this1
         else Inr this1) = Inr this'"
    by (auto simp: ebind_Inr_iff)
  from c have "if both_used props
        then copy_rs_rv ext props G press_r sat_r temp (cells reg r) (rs_func this ! r) (rv_func this ! r) this1
             = Inr this'
        else this' = this1"
    unfolding both_used_def by (auto split: if_splits)
  with rv v f show ?thesis by blast
qed

lemma copy_rs_rv_frame:
  assumes "copy_rs_rv ext props G press_r sat_r temp cs rsf rvf this = Inr this'"
  shows "rs_func this' = rs_func this \<and> rv_func this' = rv_func this \<and> swat_init this' = swat_init this
       \<and> pp this' = pp this \<and> sat this' = sat this"
  using copy_rs_rv_Inr[OF assms] by auto

lemma copy_rs_rv_cells:
  assumes "copy_rs_rv ext props G press_r sat_r temp cs rsf rvf this = Inr this'"
  shows "(\<forall>c. c \<notin> set cs \<longrightarrow> rs this' ! c = rs this ! c \<and> rv this' ! c = rv this ! c)
       \<and> (rsf = NoMixing \<longrightarrow> (\<forall>c\<in>set cs. rs this' ! c = 0))
       \<and> (rvf = NoMixing \<longrightarrow> (\<forall>c\<in>set cs. rv this' ! c = 0))"
proof -
  from copy_rs_rv_Inr[OF assms] obtain po sg pg so rs_r rv_r rs' rv' where
    r1: "computeRs ext G cs po temp rsf sg = Inr rs_r" and
    r2: "computeRs ext G cs pg temp rvf so = Inr rv_r" and
    c1: "copyFromRegion rs_r cs (rs this) = Inr rs'" and
    c2: "copyFromRegion rv_r cs (rv this) = Inr rv'" and
    t: "this' = this\<lparr>rs := rs', rv := rv'\<rparr>"
    by blast
  have out: "\<forall>c. c \<notin> set cs \<longrightarrow> rs this' ! c = rs this ! c \<and> rv this' ! c = rv this ! c"
    using copyFromRegion_outside[OF c1] copyFromRegion_outside[OF c2] by (simp add: t)
  have z1: "rsf = NoMixing \<longrightarrow> (\<forall>c\<in>set cs. rs this' ! c = 0)"
  proof (intro impI ballI)
    fix c assume "rsf = NoMixing" and c: "c \<in> set cs"
    with r1 have "rs_r = replicate (length cs) 0" by (simp add: computeRs_NoMixing)
    with copyFromRegion_values[OF c1 c] show "rs this' ! c = 0" by (simp add: t)
  qed
  have z2: "rvf = NoMixing \<longrightarrow> (\<forall>c\<in>set cs. rv this' ! c = 0)"
  proof (intro impI ballI)
    fix c assume "rvf = NoMixing" and c: "c \<in> set cs"
    with r2 have "rv_r = replicate (length cs) 0" by (simp add: computeRs_NoMixing)
    with copyFromRegion_values[OF c2 c] show "rv this' ! c = 0" by (simp add: t)
  qed
  from out z1 z2 show ?thesis by blast
qed

lemma calc_region_frame:
  assumes "calc_region ext props G grav reg rec r this = Inr this'"
  shows "rs_func this' = rs_func this \<and> rv_func this' = rv_func this \<and> swat_init this' = swat_init this
       \<and> length (pp this') = length (pp this) \<and> length (sat this') = length (sat this)
       \<and> (\<not> both_used props \<longrightarrow> rs this' = rs this \<and> rv this' = rv this)"
proof -
  from calc_region_Inr[OF assms] obtain press_r temp sat_r this1 where
    f: "foldE (copy_phase press_r sat_r (cells reg r)) [0 ..< props_numPhases props] this = Inr this1"
    and c: "if both_used props
        then copy_rs_rv ext props G press_r sat_r temp (cells reg r) (rs_func this ! r) (rv_func this ! r) this1
             = Inr this'
        else this' = this1"
    by blast
  note e = copy_phases_effect[OF f cells_distinct]
  show ?thesis
  proof (cases "both_used props")
    case True
    with c copy_rs_rv_frame show ?thesis using e by fastforce
  next
    case False
    with c e show ?thesis by simp
  qed
qed


lemma calc_region_cells:
  assumes "calc_region ext props G grav reg rec r this = Inr this'"
  shows "(\<forall>c. c \<notin> set (cells reg r) \<longrightarrow> rs this' ! c = rs this ! c \<and> rv this' ! c = rv this ! c)
       \<and> (rs_func this ! r = NoMixing \<longrightarrow> (\<forall>c\<in>set (cells reg r). rs this' ! c = 0 \<or> rs this' ! c = rs this ! c))
       \<and> (rv_func this ! r = NoMixing \<longrightarrow> (\<forall>c\<in>set (cells reg r). rv this' ! c = 0 \<or> rv this' ! c = rv this ! c))"
proof -
  from calc_region_Inr[OF assms] obtain press_r temp sat_r this1 where
    f: "foldE (copy_phase press_r sat_r (cells reg r)) [0 ..< props_numPhases props] this = Inr this1"
    and c: "if both_used props
        then copy_rs_rv ext props G press_r sat_r temp (cells reg r) (rs_func this ! r) (rv_func this ! r) this1
             = Inr this'
        else this' = this1"
    by blast
  from copy_phases_effect[OF f cells_distinct]
  have e: "rs this1 = rs this" "rv this1 = rv this" by auto
  show ?thesis
  proof (cases "both_used props")
    case True
    with c have "copy_rs_rv ext props G press_r sat_r temp (cells reg r) (rs_func this ! r) (rv_func this ! r) this1
             = Inr this'" by simp
    from copy_rs_rv_cells[OF this] show ?thesis unfolding e by blast
  next
    case False
    with c e show ?thesis by simp
  qed
qed

lemma calc_frame:
  assumes "calcPressSatRsRv ext reg rec props G grav this = Inr this'"
  shows "rs_func this' = rs_func this \<and> rv_func this' = rv_func this \<and> swat_init this' = swat_init this
       \<and> length (pp this') = length (pp this) \<and> length (sat this') = length (sat this)
       \<and> (\<not> both_used props \<longrightarrow> rs this' = rs this \<and> rv this' = rv this)"
proof (rule foldE_invariant[OF assms[unfolded calcPressSatRsRv_def] ])
  show "rs_func this = rs_func this \<and> rv_func this = rv_func this \<and> swat_init this = swat_init this
       \<and> length (pp this) = length (pp this) \<and> length (sat this) = length (sat this)
       \<and> (\<not> both_used props \<longrightarrow> rs this = rs this \<and> rv this = rv this)" by simp
next
  fix x t t'
  assume "rs_func t = rs_func this \<and> rv_func t = rv_func this \<and> swat_init t = swat_init this
       \<and> length (pp t) = length (pp this) \<and> length (sat t) = length (sat this)
       \<and> (\<not> both_used props \<longrightarrow> rs t = rs this \<and> rv t = rv this)"
    and "calc_region ext props G grav reg rec x t = Inr t'"
  then show "rs_func t' = rs_func this \<and> rv_func t' = rv_func this \<and> swat_init t' = swat_init this
       \<and> length (pp t') = length (pp this) \<and> length (sat t') = length (sat this)
       \<and> (\<not> both_used props \<longrightarrow> rs t' = rs this \<and> rv t' = rv this)"
    using calc_region_frame[of ext props G grav reg rec x t t'] by simp
qed

lemma calc_nomixing:
  assumes run: "calcPressSatRsRv ext reg rec props G grav this = Inr this'"
    and init: "nomixing_zero reg (rs_func this) (rs this)" "nomixing_zero reg (rv_func this) (rv this)"
  shows "nomixing_zero reg (rs_func this) (rs this') \<and> nomixing_zero reg (rv_func this) (rv this')"
proof -
  let ?P = "\<lambda>t. rs_func t = rs_func this \<and> rv_func t = rv_func this
      \<and> nomixing_zero reg (rs_func this) (rs t) \<and> nomixing_zero reg (rv_func this) (rv t)"
  have "?P this'"
  proof (rule foldE_invariant[OF run[unfolded calcPressSatRsRv_def], where P = ?P])
    show "?P this" using init by simp
  next
    fix x t t'
    assume inv: "?P t" and step: "calc_region ext props G grav reg rec x t = Inr t'"
    note fr = calc_region_frame[OF step]
    note ce = calc_region_cells[OF step]
    have "nomixing_zero reg (rs_func this) (rs t')"
      unfolding nomixing_zero_def
    proof (intro allI impI)
      fix r c assume nm: "rs_func this ! r = NoMixing" and c: "c \<in> set (cells reg r)"
      from inv nm c have z: "rs t ! c = 0" by (simp add: nomixing_zero_def)
      show "rs t' ! c = 0"
      proof (cases "c \<in> set (cells reg x)")
        case True
        with c have "r = x" by (rule cells_region)
        with nm inv have "rs_func t ! x = NoMixing" by simp
        with ce True z show ?thesis by auto
      next
        case False
        with ce z show ?thesis by simp
      qed
    qed
    moreover have "nomixing_zero reg (rv_func this) (rv t')"
      unfolding nomixing_zero_def
    proof (intro allI impI)
      fix r c assume nm: "rv_func this ! r = NoMixing" and c: "c \<in> set (cells reg r)"
      from inv nm c have z: "rv t ! c = 0" by (simp add: nomixing_zero_def)
      show "rv t' ! c = 0"
      proof (cases "c \<in> set (cells reg x)")
        case True
        with c have "r = x" by (rule cells_region)
        with nm inv have "rv_func t ! x = NoMixing" by simp
        with ce True z show ?thesis by auto
      next
        case False
        with ce z show ?thesis by simp
      qed
    qed
    ultimately show "?P t'" using fr inv by simp
  qed
  then show ?thesis by simp
qed


subsection \<open>The constructor\<close>

lemma new_InitialStateComputer_Inr:
  assumes "new_InitialStateComputer ext props deck es G grav = Inr this"
  shows "\<exists>rec eqlmap rsf rvf swi.
      getEquil deck = Inr rec \<and> equilnum deck es G = Inr eqlmap
    \<and> make_rs_func deck es eqlmap rec = Inr rsf \<and> make_rv_func deck es eqlmap rec = Inr rvf
    \<and> make_swat_init deck es G = Inr swi
    \<and> calcPressSatRsRv ext eqlmap rec props G grav
         ((initial_members props G)\<lparr>rs_func := rsf, rv_func := rvf, swat_init := swi\<rparr>) = Inr this"
  using assms unfolding new_InitialStateComputer_def ebind_Inr_iff by blast

lemma new_members:
  assumes "new_InitialStateComputer ext props deck es G grav = Inr this"
    and "getEquil deck = Inr rec" and "equilnum deck es G = Inr eqlmap"
  shows "make_rs_func deck es eqlmap rec = Inr (rs_func this)
       \<and> make_rv_func deck es eqlmap rec = Inr (rv_func this)
       \<and> make_swat_init deck es G = Inr (swat_init this)
       \<and> calcPressSatRsRv ext eqlmap rec props G grav
           ((initial_members props G)\<lparr>rs_func := rs_func this, rv_func := rv_func this,
              swat_init := swat_init this\<rparr>) = Inr this"
proof -
  from new_InitialStateComputer_Inr[OF assms(1)] assms(2,3) obtain rsf rvf swi where
    a: "make_rs_func deck es eqlmap rec = Inr rsf" "make_rv_func deck es eqlmap rec = Inr rvf"
       "make_swat_init deck es G = Inr swi" and
    c: "calcPressSatRsRv ext eqlmap rec props G grav
         ((initial_members props G)\<lparr>rs_func := rsf, rv_func := rvf, swat_init := swi\<rparr>) = Inr this"
    by auto
  from calc_frame[OF c] have "rs_func this = rsf" "rv_func this = rvf" "swat_init this = swi"
    by simp_all
  with a c show ?thesis by simp
qed

lemma new_fails_rs:
  assumes "getEquil deck = Inr rec" "equilnum deck es G = Inr eqlmap"
    and "make_rs_func deck es eqlmap rec = Inl e"
  shows "new_InitialStateComputer ext props deck es G grav = Inl e"
  using assms by (simp add: new_InitialStateComputer_def)

lemma new_fails_rv:
  assumes "getEquil deck = Inr rec" "equilnum deck es G = Inr eqlmap"
    and "make_rv_func deck es eqlmap rec = Inl e"
  shows "\<exists>e'. new_InitialStateComputer ext props deck es G grav = Inl e'"
  using assms by (cases "make_rs_func deck es eqlmap rec") (simp_all add: new_InitialStateComputer_def)

lemma contact_rs:
  assumes rec: "getEquil deck = Inr rec" and map: "equilnum deck es G = Inr eqlmap" and i: "i < length rec"
    and kw: "hasKeyword deck ''DISGAS''" and idx: "live_oil_table_index (rec ! i) \<le> 0"
  shows "(depth (goc (rec ! i)) \<noteq> depth (main (rec ! i)) \<longrightarrow>
           (\<exists>e. new_InitialStateComputer ext props deck es G grav = Inl e)
         \<and> (cells eqlmap i \<noteq> [] \<longrightarrow>
              rs_func_of (rsvdTables es) eqlmap rec i = Inl (RuntimeError (datum_msg ''RSVD'' i))))
       \<and> (\<forall>this. new_InitialStateComputer ext props deck es G grav = Inr this \<longrightarrow>
            depth (goc (rec ! i)) = depth (main (rec ! i))
          \<and> rs_func this ! i = RsSatAtContact (hd (cells eqlmap i)) (press (main (rec ! i))) (273.15 + 20))"
proof -
  note c = rs_func_of_contact[OF idx, of "rsvdTables es" eqlmap]
  have fail: "\<exists>e. new_InitialStateComputer ext props deck es G grav = Inl e"
    if ne: "depth (goc (rec ! i)) \<noteq> depth (main (rec ! i))"
  proof -
    from c ne obtain e where "rs_func_of (rsvdTables es) eqlmap rec i = Inl e"
      by (auto split: if_splits)
    from mapE_upt_fail[of i "length rec" "rs_func_of (rsvdTables es) eqlmap rec", OF i this] kw
    obtain e' where "make_rs_func deck es eqlmap rec = Inl e'"
      by (auto simp: make_rs_func_def)
    from new_fails_rs[OF rec map this] show ?thesis by blast
  qed
  have ok: "depth (goc (rec ! i)) = depth (main (rec ! i))
          \<and> rs_func this ! i = RsSatAtContact (hd (cells eqlmap i)) (press (main (rec ! i))) (273.15 + 20)"
    if new: "new_InitialStateComputer ext props deck es G grav = Inr this" for this
  proof -
    from new_members[OF new rec map] kw
    have "mapE (rs_func_of (rsvdTables es) eqlmap rec) [0 ..< length rec] = Inr (rs_func this)"
      by (simp add: make_rs_func_def)
    from mapE_upt_nth[OF this i] have "rs_func_of (rsvdTables es) eqlmap rec i = Inr (rs_func this ! i)" .
    with c show ?thesis by (auto split: if_splits)
  qed
  from fail ok c show ?thesis by auto
qed

lemma contact_rv:
  assumes rec: "getEquil deck = Inr rec" and map: "equilnum deck es G = Inr eqlmap" and i: "i < length rec"
    and kw: "hasKeyword deck ''VAPOIL''" and idx: "wet_gas_table_index (rec ! i) \<le> 0"
  shows "(depth (goc (rec ! i)) \<noteq> depth (main (rec ! i)) \<longrightarrow>
           (\<exists>e. new_InitialStateComputer ext props deck es G grav = Inl e)
         \<and> (cells eqlmap i \<noteq> [] \<longrightarrow>
              rv_func_of (rvvdTables es) eqlmap rec i = Inl (RuntimeError (datum_msg ''RVVD'' i))))
       \<and> (\<forall>this. new_InitialStateComputer ext props deck es G grav = Inr this \<longrightarrow>
            depth (goc (rec ! i)) = depth (main (rec ! i))
          \<and> rv_func this ! i = RvSatAtContact (hd (cells eqlmap i))
               (press (main (rec ! i)) + press (goc (rec ! i))) (273.15 + 20))"
proof -
  note c = rv_func_of_contact[OF idx, of "rvvdTables es" eqlmap]
  have fail: "\<exists>e. new_InitialStateComputer ext props deck es G grav = Inl e"
    if ne: "depth (goc (rec ! i)) \<noteq> depth (main (rec ! i))"
  proof -
    from c ne obtain e where "rv_func_of (rvvdTables es) eqlmap rec i = Inl e"
      by (auto split: if_splits)
    from mapE_upt_fail[of i "length rec" "rv_func_of (rvvdTables es) eqlmap rec", OF i this] kw
    obtain e' where "make_rv_func deck es eqlmap rec = Inl e'"
      by (auto simp: make_rv_func_def)
    from new_fails_rv[OF rec map this] show ?thesis by blast
  qed
  have ok: "depth (goc (rec ! i)) = depth (main (rec ! i))
          \<and> rv_func this ! i = RvSatAtContact (hd (cells eqlmap i))
               (press (main (rec ! i)) + press (goc (rec ! i))) (273.15 + 20)"
    if new: "new_InitialStateComputer ext props deck es G grav = Inr this" for this
  proof -
    from new_members[OF new rec map] kw
    have "mapE (rv_func_of (rvvdTables es) eqlmap rec) [0 ..< length rec] = Inr (rv_func this)"
      by (simp add: make_rv_func_def)
    from mapE_upt_nth[OF this i] have "rv_func_of (rvvdTables es) eqlmap rec i = Inr (rv_func this ! i)" .
    with c show ?thesis by (auto split: if_splits)
  qed
  from fail ok c show ?thesis by auto
qed

subsection \<open>The sample inputs, evaluated\<close>

lemma getEquil_plain: "getEquil deck_plain = Inr [record_of row_ok]"
  by (simp add: getEquil_def hasKeyword_def deck_plain_def row_ok_def)

lemma equilnum_plain: "equilnum deck_plain es_none grid2 = Inr [0, 0]"
  by (simp add: equilnum_def hasKeyword_def deck_plain_def grid2_def numeral_2_eq_2)

lemma cells_00: "cells [0, 0] 0 = [0, 1]"
  by (simp add: cells_def upt_2)

lemma numRegions_00: "numRegions [0, 0] = 1"
  by (simp add: numRegions_def)

lemma make_rs_plain: "make_rs_func deck_plain es_none [0, 0] [record_of row_ok] = Inr [NoMixing]"
  by (simp add: make_rs_func_def hasKeyword_def deck_plain_def)

lemma make_rv_plain: "make_rv_func deck_plain es_none [0, 0] [record_of row_ok] = Inr [NoMixing]"
  by (simp add: make_rv_func_def hasKeyword_def deck_plain_def)

lemma swat_plain: "make_swat_init deck_plain es_none grid2 = Inr []"
  by (simp add: make_swat_init_def hasKeyword_def deck_plain_def)

lemma calc3:
  "calcPressSatRsRv (ext_sample 3) [0, 0] [record_of row_ok] props3 grid2 (981/100)
     ((initial_members props3 grid2)\<lparr>rs_func := [NoMixing], rv_func := [NoMixing], swat_init := []\<rparr>)
   = Inr \<lparr>rs_func = [NoMixing], rv_func = [NoMixing],
        pp = [ [100, 101], [200, 201], [300, 301] ],
        sat = [ [1 / 3, 1 / 3], [1 / 3, 1 / 3], [1 / 3, 1 / 3] ], rs = [0, 0],
        rv = [0, 0], swat_init = []\<rparr>"
  by (simp add: calcPressSatRsRv_def numRegions_00 calc_region_def region_values_def cells_00
      first_cell_def vec_at_def ext_sample_def props3_def usage3_def upt_3 copy_phase_def
      copy_rs_rv_def initial_members_def grid2_def numeral_2_eq_2 numeral_3_eq_3)

lemma new3:
  "new_InitialStateComputer (ext_sample 3) props3 deck_plain es_none grid2 (981/100)
   = Inr \<lparr>rs_func = [NoMixing], rv_func = [NoMixing],
        pp = [ [100, 101], [200, 201], [300, 301] ],
        sat = [ [1 / 3, 1 / 3], [1 / 3, 1 / 3], [1 / 3, 1 / 3] ], rs = [0, 0],
        rv = [0, 0], swat_init = []\<rparr>"
  by (simp add: new_InitialStateComputer_def getEquil_plain equilnum_plain make_rs_plain make_rv_plain
      swat_plain calc3)



lemma equilnum_eqlnum: "equilnum deck_eqlnum es_eqlnum grid_gc = Inr [1, 2]"
  by (simp add: equilnum_def hasKeyword_def deck_eqlnum_def es_eqlnum_def grid_gc_def upt_2
      deck_pos_def vec_at_def minus_one_def)

lemma getEquil_mixing_ok: "getEquil (deck_mixing [row_ok]) = Inr [record_of row_ok]"
  by (simp add: getEquil_def hasKeyword_def deck_mixing_def row_ok_def)

lemma getEquil_mixing_bad: "getEquil (deck_mixing [row_goc_above]) = Inr [record_of row_goc_above]"
  by (simp add: getEquil_def hasKeyword_def deck_mixing_def row_ok_def row_goc_above_def)

lemma equilnum_mixing: "equilnum (deck_mixing rows) es grid2 = Inr [0, 0]"
  by (simp add: equilnum_def hasKeyword_def deck_mixing_def grid2_def numeral_2_eq_2)

lemma make_rs_contact:
  "make_rs_func (deck_mixing [row_ok]) es_none [0, 0] [record_of row_ok]
     = Inr [RsSatAtContact 0 30000000 (273.15 + 20)]"
  by (simp add: make_rs_func_def hasKeyword_def deck_mixing_def rs_func_of_def cells_00 first_cell_def
      record_of_def row_ok_def)

lemma make_rv_contact:
  "make_rv_func (deck_mixing [row_ok]) es_none [0, 0] [record_of row_ok]
     = Inr [RvSatAtContact 0 30000000 (273.15 + 20)]"
  by (simp add: make_rv_func_def hasKeyword_def deck_mixing_def rv_func_of_def cells_00 first_cell_def
      record_of_def row_ok_def)

lemma swat_mixing: "make_swat_init (deck_mixing rows) es grid2 = Inr []"
  by (simp add: make_swat_init_def hasKeyword_def deck_mixing_def)

lemma calc_contact:
  "calcPressSatRsRv (ext_sample 3) [0, 0] [record_of row_ok] props3 grid2 (981/100)
     ((initial_members props3 grid2)\<lparr>rs_func := [RsSatAtContact 0 30000000 (273.15 + 20)],
        rv_func := [RvSatAtContact 0 30000000 (273.15 + 20)], swat_init := []\<rparr>)
   = Inr \<lparr>rs_func = [RsSatAtContact 0 30000000 (273.15 + 20)],
        rv_func = [RvSatAtContact 0 30000000 (273.15 + 20)],
        pp = [ [100, 101], [200, 201], [300, 301] ],
        sat = [ [1 / 3, 1 / 3], [1 / 3, 1 / 3], [1 / 3, 1 / 3] ], rs = [7, 7],
        rv = [9, 9], swat_init = []\<rparr>"
  unfolding calcPressSatRsRv_def numRegions_00
  by (simp add: calc_region_def region_values_def cells_00
      first_cell_def vec_at_def ext_sample_def props3_def usage3_def upt_3 copy_phase_def
      copy_rs_rv_def initial_members_def grid2_def numeral_2_eq_2 numeral_3_eq_3)

lemma new_contact:
  "new_InitialStateComputer (ext_sample 3) props3 (deck_mixing [row_ok]) es_none grid2 (981/100)
   = Inr \<lparr>rs_func = [RsSatAtContact 0 30000000 (273.15 + 20)],
        rv_func = [RvSatAtContact 0 30000000 (273.15 + 20)],
        pp = [ [100, 101], [200, 201], [300, 301] ],
        sat = [ [1 / 3, 1 / 3], [1 / 3, 1 / 3], [1 / 3, 1 / 3] ], rs = [7, 7],
        rv = [9, 9], swat_init = []\<rparr>"
  by (simp only: new_InitialStateComputer_def getEquil_mixing_ok equilnum_mixing make_rs_contact
      make_rv_contact swat_mixing calc_contact ebind_simps)

lemma table_index_not_used:
  "make_rs_func (deck_mixing [row_ok\<lparr>liveOilInitProceedure := 2\<rparr>]) (es_rsvd [table_a, table_b]) [0, 0]
      [record_of (row_ok\<lparr>liveOilInitProceedure := 2\<rparr>)]
    = Inr [RsVD 0 (rsvd_DepthColumn table_a) (RsColumn table_a)]"
  by (simp add: make_rs_func_def hasKeyword_def deck_mixing_def rs_func_of_def cells_00 first_cell_def
      record_of_def row_ok_def es_rsvd_def vec_at_def)

lemma table_read_outside:
  "make_rs_func (deck_mixing [row_ok\<lparr>liveOilInitProceedure := 1\<rparr>, row_ok\<lparr>liveOilInitProceedure := 1\<rparr>])
      (es_rsvd [table_a]) [0, 1]
      [record_of (row_ok\<lparr>liveOilInitProceedure := 1\<rparr>), record_of (row_ok\<lparr>liveOilInitProceedure := 1\<rparr>)]
    = Inl UndefinedBehaviour"
  by (simp add: make_rs_func_def hasKeyword_def deck_mixing_def rs_func_of_def cells_def first_cell_def
      record_of_def row_ok_def es_rsvd_def vec_at_def upt_2)

section \<open>The claims: equilibration\<close>

text \<open>
  C1.  The claim: under DISGAS, for a region whose record has a positive live-oil table
  index \<open>t\<close>, the depth-table function is built from table \<open>t\<close> (counting from 1) of
  the RSVD tables, and initialisation fails when there is no such table.  The code tests
  \<open>t\<close> against the number of tables but then reads the table at the position of the
  region.  Two evaluations: one region with \<open>t = 2\<close> and two tables gets the first
  table, not the second; two regions with \<open>t = 1\<close> and one table pass the test, and the
  second region reads outside the table list.
\<close>

theorem rsvd_table_of_region_not_of_index:
  "live_oil_table_index (record_of (row_ok\<lparr>liveOilInitProceedure := 2\<rparr>)) = 2
   \<and> make_rs_func (deck_mixing [row_ok\<lparr>liveOilInitProceedure := 2\<rparr>]) (es_rsvd [table_a, table_b]) [0, 0]
        [record_of (row_ok\<lparr>liveOilInitProceedure := 2\<rparr>)]
       = Inr [RsVD 0 (rsvd_DepthColumn table_a) (RsColumn table_a)]
   \<and> RsColumn ([table_a, table_b] ! (2 - 1)) \<noteq> RsColumn table_a
   \<and> make_rs_func (deck_mixing [row_ok\<lparr>liveOilInitProceedure := 1\<rparr>, row_ok\<lparr>liveOilInitProceedure := 1\<rparr>])
        (es_rsvd [table_a]) [0, 1]
        [record_of (row_ok\<lparr>liveOilInitProceedure := 1\<rparr>), record_of (row_ok\<lparr>liveOilInitProceedure := 1\<rparr>)]
       = Inl UndefinedBehaviour"
  using table_index_not_used table_read_outside
  by (simp add: record_of_def row_ok_def table_a_def table_b_def)

text \<open>
  C2.  With keyword EQUIL in the deck: if some record has a non-zero accuracy item (item 9,
  \<open>N\<close>), \<open>getEquil\<close> throws the domain error that only \<open>N = 0\<close> is supported, and so
  does the constructor, whatever the grid, the properties and the pressure and saturation
  routines are: no object, hence no pressure, saturation, Rs or Rv array, comes out.  If
  all records have accuracy item 0, \<open>getEquil\<close> returns them all.
\<close>

theorem accuracy_target_rejected:
  assumes "hasKeyword deck ''EQUIL''"
  shows "((\<exists>row\<in>set (EQUIL deck). initializationTargetAccuracy row \<noteq> 0) \<longrightarrow>
            getEquil deck = Inl (DomainError ''kw EQUIL, item 9: Only N=0 supported.'')
          \<and> new_InitialStateComputer ext props deck eclipseState G grav
              = Inl (DomainError ''kw EQUIL, item 9: Only N=0 supported.''))
       \<and> ((\<forall>row\<in>set (EQUIL deck). initializationTargetAccuracy row = 0) \<longrightarrow>
            getEquil deck = Inr (map record_of (EQUIL deck)))"
  using getEquil_reject[OF assms] getEquil_accept[OF assms]
  by (auto simp: new_InitialStateComputer_def)

theorem accuracy_target_rejected_witness:
  "hasKeyword deck_accuracy5 ''EQUIL''
   \<and> map initializationTargetAccuracy (EQUIL deck_accuracy5) = [5]
   \<and> new_InitialStateComputer (ext_sample 3) props3 deck_accuracy5 es_none grid2 (981 / 100)
       = Inl (DomainError ''kw EQUIL, item 9: Only N=0 supported.'')
   \<and> hasKeyword deck_plain ''EQUIL''
   \<and> map initializationTargetAccuracy (EQUIL deck_plain) = [0]
   \<and> getEquil deck_plain = Inr (map record_of (EQUIL deck_plain))"
proof -
  have k5: "hasKeyword deck_accuracy5 ''EQUIL''" and k0: "hasKeyword deck_plain ''EQUIL''"
    by (simp_all add: hasKeyword_def deck_accuracy5_def deck_plain_def)
  have a5: "map initializationTargetAccuracy (EQUIL deck_accuracy5) = [5]"
    and a0: "map initializationTargetAccuracy (EQUIL deck_plain) = [0]"
    by (simp_all add: deck_accuracy5_def deck_plain_def row_ok_def)
  from a5 have n5: "\<exists>row\<in>set (EQUIL deck_accuracy5). initializationTargetAccuracy row \<noteq> 0"
    by (simp add: deck_accuracy5_def)
  from a0 have n0: "\<forall>row\<in>set (EQUIL deck_plain). initializationTargetAccuracy row = 0"
    by (simp add: deck_plain_def)
  from accuracy_target_rejected[OF k5, of "ext_sample 3" props3 es_none grid2 "981 / 100"]
    accuracy_target_rejected[OF k0, of "ext_sample 3" props3 es_none grid2 "981 / 100"]
    k5 k0 n5 n0 a5 a0
  show ?thesis by blast
qed

text \<open>
  C3.  Without keyword DISGAS the Rs function of every region is NoMixing, and without
  keyword VAPOIL the Rv function of every region is NoMixing, whatever the table indices
  of the records are: both for the list that the constructor builds and for the members of
  a computer that it returns.
\<close>

theorem nomixing_without_flag:
  "(\<not> hasKeyword deck ''DISGAS'' \<longrightarrow>
       make_rs_func deck es eqlmap rec = Inr (replicate (length rec) NoMixing)
     \<and> (\<forall>this. new_InitialStateComputer ext props deck es G grav = Inr this \<longrightarrow>
          (\<forall>f\<in>set (rs_func this). f = NoMixing)))
 \<and> (\<not> hasKeyword deck ''VAPOIL'' \<longrightarrow>
       make_rv_func deck es eqlmap rec = Inr (replicate (length rec) NoMixing)
     \<and> (\<forall>this. new_InitialStateComputer ext props deck es G grav = Inr this \<longrightarrow>
          (\<forall>f\<in>set (rv_func this). f = NoMixing)))"
proof -
  have a: "\<forall>f\<in>set (rs_func this). f = NoMixing"
    if "\<not> hasKeyword deck ''DISGAS''" "new_InitialStateComputer ext props deck es G grav = Inr this" for this
  proof -
    from new_InitialStateComputer_Inr[OF that(2)] obtain rec' eqlmap' where
      r: "getEquil deck = Inr rec'" "equilnum deck es G = Inr eqlmap'" by blast
    from new_members[OF that(2) r] make_rs_func_nomixing[OF that(1), of es eqlmap' rec']
    have "rs_func this = replicate (length rec') NoMixing" by simp
    then show ?thesis by simp
  qed
  have b: "\<forall>f\<in>set (rv_func this). f = NoMixing"
    if "\<not> hasKeyword deck ''VAPOIL''" "new_InitialStateComputer ext props deck es G grav = Inr this" for this
  proof -
    from new_InitialStateComputer_Inr[OF that(2)] obtain rec' eqlmap' where
      r: "getEquil deck = Inr rec'" "equilnum deck es G = Inr eqlmap'" by blast
    from new_members[OF that(2) r] make_rv_func_nomixing[OF that(1), of es eqlmap' rec']
    have "rv_func this = replicate (length rec') NoMixing" by simp
    then show ?thesis by simp
  qed
  from a b make_rs_func_nomixing make_rv_func_nomixing show ?thesis by blast
qed

theorem nomixing_without_flag_witness:
  "\<not> hasKeyword deck_plain ''DISGAS'' \<and> \<not> hasKeyword deck_plain ''VAPOIL''
   \<and> make_rs_func deck_plain es_none [0, 0] [record_of row_ok] = Inr (replicate 1 NoMixing)
   \<and> make_rv_func deck_plain es_none [0, 0] [record_of row_ok] = Inr (replicate 1 NoMixing)
   \<and> (\<exists>this. new_InitialStateComputer (ext_sample 3) props3 deck_plain es_none grid2 (981 / 100) = Inr this
         \<and> rs_func this = [NoMixing] \<and> rv_func this = [NoMixing])"
proof -
  have k: "\<not> hasKeyword deck_plain ''DISGAS''" "\<not> hasKeyword deck_plain ''VAPOIL''"
    by (simp_all add: hasKeyword_def deck_plain_def)
  from nomixing_without_flag[where deck = deck_plain and es = es_none and eqlmap = "[0, 0]"
      and rec = "[record_of row_ok]" and ext = "ext_sample 3" and props = props3 and G = grid2
      and grav = "981 / 100"] k new3
  show ?thesis by simp
qed

text \<open>
  C4.  For a region \<open>i\<close> whose record has no positive live-oil table index, under DISGAS:
  if the depth of the gas-oil contact differs from the datum depth the constructor fails
  (with the runtime error that the datum depth must be at the gas-oil contact, when the
  region has a cell to represent it); and in every computer that the constructor returns
  the two depths are equal and the Rs function of the region is the saturated-at-contact
  function at the datum pressure and the temperature 273.15 + 20.  The same under VAPOIL
  for the wet-gas table index and the Rv function, at the datum pressure plus the
  capillary pressure of the gas-oil contact.
\<close>

theorem saturated_at_contact:
  assumes "getEquil deck = Inr rec" and "equilnum deck es G = Inr eqlmap" and "i < length rec"
  shows "(hasKeyword deck ''DISGAS'' \<and> live_oil_table_index (rec ! i) \<le> 0 \<longrightarrow>
          (depth (goc (rec ! i)) \<noteq> depth (main (rec ! i)) \<longrightarrow>
             (\<exists>e. new_InitialStateComputer ext props deck es G grav = Inl e)
           \<and> (cells eqlmap i \<noteq> [] \<longrightarrow>
                rs_func_of (rsvdTables es) eqlmap rec i = Inl (RuntimeError (datum_msg ''RSVD'' i))))
        \<and> (\<forall>this. new_InitialStateComputer ext props deck es G grav = Inr this \<longrightarrow>
              depth (goc (rec ! i)) = depth (main (rec ! i))
            \<and> rs_func this ! i = RsSatAtContact (hd (cells eqlmap i)) (press (main (rec ! i))) (273.15 + 20)))
     \<and> (hasKeyword deck ''VAPOIL'' \<and> wet_gas_table_index (rec ! i) \<le> 0 \<longrightarrow>
          (depth (goc (rec ! i)) \<noteq> depth (main (rec ! i)) \<longrightarrow>
             (\<exists>e. new_InitialStateComputer ext props deck es G grav = Inl e)
           \<and> (cells eqlmap i \<noteq> [] \<longrightarrow>
                rv_func_of (rvvdTables es) eqlmap rec i = Inl (RuntimeError (datum_msg ''RVVD'' i))))
        \<and> (\<forall>this. new_InitialStateComputer ext props deck es G grav = Inr this \<longrightarrow>
              depth (goc (rec ! i)) = depth (main (rec ! i))
            \<and> rv_func this ! i = RvSatAtContact (hd (cells eqlmap i))
                 (press (main (rec ! i)) + press (goc (rec ! i))) (273.15 + 20)))"
  using contact_rs[OF assms, of ext props grav] contact_rv[OF assms, of ext props grav]
  by blast

theorem saturated_at_contact_witness:
  "getEquil (deck_mixing [row_goc_above]) = Inr [record_of row_goc_above]
   \<and> equilnum (deck_mixing [row_goc_above]) es_none grid2 = Inr [0, 0]
   \<and> hasKeyword (deck_mixing [row_goc_above]) ''DISGAS''
   \<and> live_oil_table_index ([record_of row_goc_above] ! 0) \<le> 0
   \<and> depth (goc ([record_of row_goc_above] ! 0)) \<noteq> depth (main ([record_of row_goc_above] ! 0))
   \<and> (\<exists>e. new_InitialStateComputer (ext_sample 3) props3 (deck_mixing [row_goc_above]) es_none grid2
              (981 / 100) = Inl e)
   \<and> rs_func_of (rsvdTables es_none) [0, 0] [record_of row_goc_above] 0
        = Inl (RuntimeError (datum_msg ''RSVD'' 0))
   \<and> (\<exists>this. new_InitialStateComputer (ext_sample 3) props3 (deck_mixing [row_ok]) es_none grid2
              (981 / 100) = Inr this
         \<and> rs_func this ! 0 = RsSatAtContact 0 30000000 (273.15 + 20)
         \<and> rv_func this ! 0 = RvSatAtContact 0 30000000 (273.15 + 20))"
proof -
  have kb: "hasKeyword (deck_mixing [row_goc_above]) ''DISGAS''"
    and ko: "hasKeyword (deck_mixing [row_ok]) ''DISGAS''" "hasKeyword (deck_mixing [row_ok]) ''VAPOIL''"
    by (simp_all add: hasKeyword_def deck_mixing_def)
  have ib: "live_oil_table_index ([record_of row_goc_above] ! 0) \<le> 0"
    and db: "depth (goc ([record_of row_goc_above] ! 0)) \<noteq> depth (main ([record_of row_goc_above] ! 0))"
    by (simp_all add: record_of_def row_goc_above_def row_ok_def)
  have io: "live_oil_table_index ([record_of row_ok] ! 0) \<le> 0"
       "wet_gas_table_index ([record_of row_ok] ! 0) \<le> 0"
    and vo: "press (main ([record_of row_ok] ! 0)) = 30000000" "press (goc ([record_of row_ok] ! 0)) = 0"
    by (simp_all add: record_of_def row_ok_def)
  have c: "cells [0, 0] 0 \<noteq> []" "hd (cells [0, 0] 0) = 0"
    by (simp_all add: cells_00)
  have bad: "(\<exists>e. new_InitialStateComputer (ext_sample 3) props3 (deck_mixing [row_goc_above]) es_none grid2
              (981 / 100) = Inl e)
     \<and> rs_func_of (rsvdTables es_none) [0, 0] [record_of row_goc_above] 0
        = Inl (RuntimeError (datum_msg ''RSVD'' 0))"
    using saturated_at_contact[where i = 0 and ext = "ext_sample 3" and props = props3 and grav = "981 / 100"
        and es = es_none, OF getEquil_mixing_bad equilnum_mixing]
      kb ib db c by simp
  have good: "rs_func this ! 0 = RsSatAtContact 0 30000000 (273.15 + 20)
         \<and> rv_func this ! 0 = RvSatAtContact 0 30000000 (273.15 + 20)"
    if "new_InitialStateComputer (ext_sample 3) props3 (deck_mixing [row_ok]) es_none grid2 (981 / 100)
         = Inr this" for this
    using saturated_at_contact[where i = 0 and ext = "ext_sample 3" and props = props3 and grav = "981 / 100"
        and es = es_none, OF getEquil_mixing_ok equilnum_mixing]
      ko io c that unfolding vo by simp
  from good[OF new_contact] new_contact
  have "\<exists>this. new_InitialStateComputer (ext_sample 3) props3 (deck_mixing [row_ok]) es_none grid2
              (981 / 100) = Inr this
         \<and> rs_func this ! 0 = RsSatAtContact 0 30000000 (273.15 + 20)
         \<and> rv_func this ! 0 = RvSatAtContact 0 30000000 (273.15 + 20)"
    by blast
  with bad kb ib db getEquil_mixing_bad equilnum_mixing show ?thesis by blast
qed

text \<open>
  C5.  With keyword EQLNUM, \<open>equilnum\<close> returns a list exactly when every cell's position
  in the deck (its entry in the grid's global-cell mapping, or the cell index itself without
  that mapping) is inside the EQLNUM data and the value there can be decremented; the list
  then has one entry for each cell, the value at that position minus one.  Without keyword
  EQLNUM every cell gets region 0.
\<close>

theorem equilnum_region_ids:
  "(hasKeyword deck ''EQLNUM'' \<longrightarrow>
     (equilnum deck es G = Inr ids \<longleftrightarrow>
        length ids = number_of_cells G
      \<and> (\<forall>cell<number_of_cells G. \<exists>p.
            (case global_cell G of None \<Rightarrow> p = int cell
                                 | Some gc \<Rightarrow> cell < length gc \<and> p = gc ! cell)
          \<and> 0 \<le> p \<and> nat p < length (EQLNUM es) \<and> EQLNUM es ! nat p \<noteq> - (2 ^ 31)
          \<and> ids ! cell = EQLNUM es ! nat p - 1)))
 \<and> (\<not> hasKeyword deck ''EQLNUM'' \<longrightarrow> equilnum deck es G = Inr (replicate (number_of_cells G) 0))"
proof -
  have dp: "deck_pos G cell = Inr p \<longleftrightarrow>
      (case global_cell G of None \<Rightarrow> p = int cell | Some gc \<Rightarrow> cell < length gc \<and> p = gc ! cell)" for cell p
    by (auto simp: deck_pos_def vec_at_nat split: option.splits)
  show ?thesis
    using equilnum_Inr_iff[of deck es G ids] unfolding dp
    by (simp add: equilnum_def)
qed

theorem equilnum_region_ids_witness:
  "hasKeyword deck_eqlnum ''EQLNUM''
   \<and> equilnum deck_eqlnum es_eqlnum grid_gc = Inr [1, 2]
   \<and> number_of_cells grid_gc = 2 \<and> global_cell grid_gc = Some [2, 0]
   \<and> [1, 2] ! 0 = EQLNUM es_eqlnum ! 2 - 1
   \<and> [1, 2] ! 1 = EQLNUM es_eqlnum ! 0 - 1
   \<and> \<not> hasKeyword deck_plain ''EQLNUM''
   \<and> equilnum deck_plain es_none grid2 = Inr (replicate (number_of_cells grid2) 0)"
proof -
  have k: "hasKeyword deck_eqlnum ''EQLNUM''" and n: "\<not> hasKeyword deck_plain ''EQLNUM''"
    by (simp_all add: hasKeyword_def deck_eqlnum_def deck_plain_def)
  have g: "number_of_cells grid_gc = 2" "global_cell grid_gc = Some [2, 0]"
    by (simp_all add: grid_gc_def)
  from equilnum_region_ids[of deck_eqlnum es_eqlnum grid_gc "[1, 2]"] k equilnum_eqlnum
  have all: "\<forall>cell<2. \<exists>p. cell < length [2, 0::int] \<and> p = [2, 0] ! cell
        \<and> [1, 2] ! cell = EQLNUM es_eqlnum ! nat p - 1"
    unfolding g by simp
  from all[rule_format, of 0] have c0: "[1, 2] ! 0 = EQLNUM es_eqlnum ! 2 - 1" by simp
  from all[rule_format, of 1] have c1: "[1, 2] ! 1 = EQLNUM es_eqlnum ! 0 - 1" by simp
  from equilnum_region_ids[of deck_plain es_none grid2 "[]"] n
  have "equilnum deck_plain es_none grid2 = Inr (replicate (number_of_cells grid2) 0)"
    by blast
  with k n g c0 c1 equilnum_eqlnum show ?thesis by blast
qed

text \<open>
  C6.  In a computer that the constructor returns, for a region whose Rs function and Rv
  function are both NoMixing, the Rs array and the Rv array are zero at every cell of the
  region.  (\<open>computeRs\<close> and the evaluation of NoMixing are modelled from the spec; the
  loop over the regions and the copies into the arrays are the source's.)
\<close>

theorem nomixing_regions_zero:
  assumes "new_InitialStateComputer ext props deck es G grav = Inr this"
    and "equilnum deck es G = Inr eqlmap"
    and "rs_func this ! r = NoMixing" and "rv_func this ! r = NoMixing"
    and "c \<in> set (cells eqlmap r)"
  shows "rs this ! c = 0 \<and> rv this ! c = 0"
proof -
  from new_InitialStateComputer_Inr[OF assms(1)] assms(2) obtain rec where
    rec: "getEquil deck = Inr rec" by auto
  let ?start = "(initial_members props G)\<lparr>rs_func := rs_func this, rv_func := rv_func this,
              swat_init := swat_init this\<rparr>"
  from new_members[OF assms(1) rec assms(2)]
  have run: "calcPressSatRsRv ext eqlmap rec props G grav ?start = Inr this" by simp
  have len: "length eqlmap = number_of_cells G" using assms(2) by (rule equilnum_length)
  have z: "nomixing_zero eqlmap (rs_func ?start) (rs ?start)" "nomixing_zero eqlmap (rv_func ?start) (rv ?start)"
    using len by (auto simp: nomixing_zero_def initial_members_def dest: cells_bound)
  from calc_nomixing[OF run z] assms(3,4,5) show ?thesis
    by (simp add: nomixing_zero_def)
qed

theorem nomixing_regions_zero_witness:
  "(\<exists>this. new_InitialStateComputer (ext_sample 3) props3 deck_plain es_none grid2 (981 / 100) = Inr this
      \<and> equilnum deck_plain es_none grid2 = Inr [0, 0]
      \<and> rs_func this ! 0 = NoMixing \<and> rv_func this ! 0 = NoMixing
      \<and> 1 \<in> set (cells [0, 0] 0)
      \<and> rs this ! 1 = 0 \<and> rv this ! 1 = 0)
   \<and> both_used props3"
proof -
  have c: "1 \<in> set (cells [0, 0] 0)" by (simp add: cells_00)
  have b: "both_used props3" by (simp add: both_used_def props3_def usage3_def)
  have "rs this ! 1 = 0 \<and> rv this ! 1 = 0"
    if "new_InitialStateComputer (ext_sample 3) props3 deck_plain es_none grid2 (981 / 100) = Inr this"
      "rs_func this ! 0 = NoMixing" "rv_func this ! 0 = NoMixing" for this
    using nomixing_regions_zero[OF that(1) equilnum_plain that(2,3) c] .
  from this[OF new3] new3 equilnum_plain c b show ?thesis by simp
qed



end
